theory Spec2Isabelle
  imports Main "HOL-Library.Word" "HOL-Library.Multiset" "HOL-Library.AList"
begin

section \<open>Data model of the topology package\<close>

text \<open>
  The descriptions come from package \<open>description\<close>. \<open>ServerKind\<close> and
  \<open>TopologyKind\<close> are closed enumerations; Go shares the constant \<open>Unknown\<close> between
  the two, here the topology's one is \<open>TopologyUnknown\<close>.
\<close>

datatype ServerKind =
  Unknown | Standalone | RSPrimary | RSSecondary | RSArbiter | RSOther | RSGhost
  | Mongos | LoadBalancer

datatype TopologyKind =
  TopologyUnknown | Single | ReplicaSetNoPrimary | ReplicaSetWithPrimary | Sharded
  | LoadBalanced

text \<open>\<open>address.Address\<close> is a Go string.\<close>

type_synonym Address = string

text \<open>
  Errors as values. The package-level error variables of the topology package, the
  \<open>errors.New\<close>/\<open>fmt.Errorf\<close> strings, and \<open>driver.Error\<close> with its server code
  (an \<open>int32\<close>). \<open>OtherError\<close> stands for any error of another dynamic type.
\<close>

datatype error =
  ErrSubscribeAfterClosed
  | ErrTopologyClosed
  | ErrTopologyConnected
  | ErrServerSelectionTimeout
  | ErrorString string
  | DriverError (Code: "32 word") (Message: string)
  | OtherError string

text \<open>\<open>description.TopologyVersion\<close>: a process id (an ObjectID) and an \<open>int64\<close> counter.\<close>

record TopologyVersion =
  ProcessID :: "8 word list"
  Counter :: "64 word"

text \<open>
  \<open>description.Server\<close>, with the fields the topology code reads. \<open>TopologyVersion\<close> is
  a pointer in Go: \<open>None\<close> is nil.
\<close>

record Server =
  Addr :: Address
  Kind :: ServerKind
  TopologyVersion :: "TopologyVersion option"

text \<open>\<open>description.Topology\<close>. \<open>CompatibilityErr\<close> is a Go \<open>error\<close>: \<open>None\<close> is nil.\<close>

record Topology =
  TopoKind :: TopologyKind
  Servers :: "Server list"
  SetName :: string
  SessionTimeoutMinutes :: "32 word"
  CompatibilityErr :: "error option"

text \<open>The zero value \<open>description.Topology{}\<close>.\<close>

definition Topology_zero :: Topology where
  "Topology_zero =
     \<lparr>TopoKind = TopologyUnknown, Servers = [], SetName = [],
      SessionTimeoutMinutes = 0, CompatibilityErr = None\<rparr>"

text \<open>
  What server selection returns as an error: either an error passed on as it is, or
  \<open>ServerSelectionError{Wrapped: err, Desc: desc}\<close>.
\<close>

datatype select_error =
  Plain error
  | ServerSelectionError error Topology

section \<open>Server selection from a description\<close>

text \<open>
  \<open>description.ServerSelector\<close> is an interface with one method
  \<open>SelectServer(Topology, []Server) ([]Server, error)\<close>; a selector is that function.
  \<open>serverSelectionState\<close> carries it (its \<open>timeoutChan\<close> is not read by
  \<open>selectServerFromDescription\<close>).
\<close>

type_synonym ServerSelector = "Topology \<Rightarrow> Server list \<Rightarrow> error + Server list"

record serverSelectionState =
  selector :: ServerSelector

text \<open>
  The loop of \<open>selectServerFromDescription\<close> that collects the servers whose kind is
  not \<open>Unknown\<close>, appending to \<open>allowed\<close> in the order of \<open>desc.Servers\<close>.
\<close>

fun allowed_loop :: "Server list \<Rightarrow> Server list \<Rightarrow> Server list" where
  "allowed_loop [] allowed = allowed"
| "allowed_loop (s # ss) allowed =
     allowed_loop ss (if Kind s \<noteq> Unknown then allowed @ [s] else allowed)"

definition selectServerFromDescription ::
  "Topology \<Rightarrow> serverSelectionState \<Rightarrow> select_error + Server list" where
  "selectServerFromDescription desc selectionState =
     (case CompatibilityErr desc of
        Some err \<Rightarrow> Inl (Plain err)
      | None \<Rightarrow>
          if TopoKind desc = LoadBalanced then Inr (Servers desc)
          else
            (case selector selectionState desc (allowed_loop (Servers desc) []) of
               Inl err \<Rightarrow> Inl (ServerSelectionError err desc)
             | Inr suitable \<Rightarrow> Inr suitable))"

section \<open>Operations of package operation\<close>

text \<open>
  A \<open>bsoncore.Document\<close> is a byte slice; the operations read it through
  \<open>Elements()\<close>, which either fails on malformed bytes or yields the elements in
  order, each a key and a value. The BSON codec is not part of the sources verified
  here, so a document is given by what \<open>Elements()\<close> returns for it, and a value by its
  BSON type and payload for the types the result builders read.
\<close>

datatype Value =
  Int32 "32 word"
  | Int64 "64 word"
  | Boolean bool
  | String string
  | OtherValue string

type_synonym Element = "string \<times> Value"

datatype Document = Malformed error | Doc "Element list"

fun Elements :: "Document \<Rightarrow> error + Element list" where
  "Elements (Malformed err) = Inl err"
| "Elements (Doc es) = Inr es"

text \<open>The name of a value's BSON type, as \<open>%s\<close> prints \<open>Value.Type\<close>.\<close>

fun Type :: "Value \<Rightarrow> string" where
  "Type (Int32 _) = ''32-bit integer''"
| "Type (Int64 _) = ''64-bit integer''"
| "Type (Boolean _) = ''boolean''"
| "Type (String _) = ''string''"
| "Type (OtherValue t) = t"

text \<open>
  \<open>Value.AsInt32OK\<close> of bsoncore: the value and true for a BSON int32, zero and false
  for every other type (the message \<open>buildInsertResult\<close> reports on false says so:
  "response field 'n' is type int32, but received BSON type ...").
\<close>

fun AsInt32OK :: "Value \<Rightarrow> 32 word \<times> bool" where
  "AsInt32OK (Int32 i) = (i, True)"
| "AsInt32OK _ = (0, False)"

text \<open>\<open>driver.Deployment\<close> is an interface; a deployment is a handle.\<close>

datatype Deployment = Deployment nat

text \<open>\<open>driver.ResponseInfo\<close>, with the field \<open>processResponse\<close> reads.\<close>

record ResponseInfo =
  ServerResponse :: Document

text \<open>
  \<open>driver.Operation{...}.Execute(ctx, nil)\<close> belongs to package driver and is a
  parameter of every \<open>Execute\<close> below. It is given the operation object, whose methods
  \<open>command\<close> and \<open>processResponse\<close> it calls back, and yields the error it returns,
  the operation object as the callbacks left it, and the command documents it wrote
  to a connection.
\<close>

type_synonym 'op Executor = "'op \<Rightarrow> error option \<times> 'op \<times> Document list"

subsection \<open>Insert\<close>

record InsertResult =
  InsertResult_N :: "32 word"

record Insert =
  Insert_documents :: "Document list"
  Insert_ordered :: "bool option"
  Insert_collection :: string
  Insert_database :: string
  Insert_deployment :: "Deployment option"
  Insert_result :: InsertResult

text \<open>
  The loop of \<open>buildInsertResult\<close> over the elements: an element with key \<open>n\<close> assigns
  \<open>ir.N\<close> from \<open>AsInt32OK\<close> (zero when the type is wrong) and returns at once with an
  error when the type is wrong; other keys are skipped.
\<close>

fun buildInsertResult_loop :: "Element list \<Rightarrow> InsertResult \<Rightarrow> InsertResult \<times> error option" where
  "buildInsertResult_loop [] ir = (ir, None)"
| "buildInsertResult_loop (element # elements) ir =
     (if fst element = ''n'' then
        (let (n, ok) = AsInt32OK (snd element);
             ir' = ir\<lparr>InsertResult_N := n\<rparr>
         in if \<not> ok then
              (ir', Some (ErrorString
                 (''response field 'n' is type int32, but received BSON type '' @ Type (snd element))))
            else buildInsertResult_loop elements ir')
      else buildInsertResult_loop elements ir)"

definition buildInsertResult :: "Document \<Rightarrow> InsertResult \<times> error option" where
  "buildInsertResult response =
     (case Elements response of
        Inl err \<Rightarrow> (\<lparr>InsertResult_N = 0\<rparr>, Some err)
      | Inr elements \<Rightarrow> buildInsertResult_loop elements \<lparr>InsertResult_N = 0\<rparr>)"

definition NewInsert :: "Document list \<Rightarrow> Insert" where
  "NewInsert documents =
     \<lparr>Insert_documents = documents, Insert_ordered = None, Insert_collection = [],
      Insert_database = [], Insert_deployment = None,
      Insert_result = \<lparr>InsertResult_N = 0\<rparr>\<rparr>"

text \<open>\<open>i.result.N += ir.N\<close> is \<open>int32\<close> addition: it wraps.\<close>

definition Insert_processResponse :: "ResponseInfo \<Rightarrow> Insert \<Rightarrow> error option \<times> Insert" where
  "Insert_processResponse info i =
     (let (ir, err) = buildInsertResult (ServerResponse info)
      in (err, i\<lparr>Insert_result :=
                   (Insert_result i)\<lparr>InsertResult_N :=
                      InsertResult_N (Insert_result i) + InsertResult_N ir\<rparr>\<rparr>))"

definition Insert_Execute :: "Insert Executor \<Rightarrow> Insert \<Rightarrow> error option \<times> Insert \<times> Document list" where
  "Insert_Execute execute i =
     (if Insert_deployment i = None then
        (Some (ErrorString
           ''the Insert operation must have a Deployment set before Execute can be called''),
         i, [])
      else execute i)"

text \<open>
  The calls of \<open>processResponse\<close> that an execution in several batches makes, one for
  the server's reply to each batch, in order. The addition to \<open>result.N\<close> happens in
  every call, also in one that returns an error.
\<close>

fun processResponse_calls :: "ResponseInfo list \<Rightarrow> Insert \<Rightarrow> Insert" where
  "processResponse_calls [] i = i"
| "processResponse_calls (info # infos) i =
     processResponse_calls infos (snd (Insert_processResponse info i))"

subsection \<open>Count\<close>

record CountResult =
  CountResult_N :: "64 word"

record Count =
  Count_collection :: string
  Count_database :: string
  Count_deployment :: "Deployment option"
  Count_result :: CountResult

definition NewCount :: Count where
  "NewCount =
     \<lparr>Count_collection = [], Count_database = [], Count_deployment = None,
      Count_result = \<lparr>CountResult_N = 0\<rparr>\<rparr>"

text \<open>
  \<open>Count.Execute\<close>: after the executor returns, an error whose dynamic type is
  \<open>driver.Error\<close> and whose code is 26 is replaced by nil.
\<close>

definition Count_Execute :: "Count Executor \<Rightarrow> Count \<Rightarrow> error option \<times> Count \<times> Document list" where
  "Count_Execute execute c =
     (if Count_deployment c = None then
        (Some (ErrorString
           ''the Count operation must have a Deployment set before Execute can be called''),
         c, [])
      else
        (let (err, c', sent) = execute c
         in (case err of
               Some (DriverError code msg) \<Rightarrow>
                 (if code = 26 then (None, c', sent) else (err, c', sent))
             | _ \<Rightarrow> (err, c', sent))))"

subsection \<open>Distinct, CreateIndexes, DropIndexes\<close>

record DistinctResult =
  DistinctResult_Values :: "Value option"

record Distinct =
  Distinct_collection :: string
  Distinct_database :: string
  Distinct_deployment :: "Deployment option"
  Distinct_result :: DistinctResult

definition Distinct_Execute ::
  "Distinct Executor \<Rightarrow> Distinct \<Rightarrow> error option \<times> Distinct \<times> Document list" where
  "Distinct_Execute execute d =
     (if Distinct_deployment d = None then
        (Some (ErrorString
           ''the Distinct operation must have a Deployment set before Execute can be called''),
         d, [])
      else execute d)"

record CreateIndexesResult =
  CreatedCollectionAutomatically :: bool
  IndexesAfter :: "32 word"
  IndexesBefore :: "32 word"

record CreateIndexes =
  CreateIndexes_collection :: string
  CreateIndexes_database :: string
  CreateIndexes_deployment :: "Deployment option"
  CreateIndexes_result :: CreateIndexesResult

definition CreateIndexes_Execute ::
  "CreateIndexes Executor \<Rightarrow> CreateIndexes \<Rightarrow> error option \<times> CreateIndexes \<times> Document list" where
  "CreateIndexes_Execute execute ci =
     (if CreateIndexes_deployment ci = None then
        (Some (ErrorString
           ''the CreateIndexes operation must have a Deployment set before Execute can be called''),
         ci, [])
      else execute ci)"

record DropIndexesResult =
  NIndexesWas :: "32 word"

record DropIndexes =
  DropIndexes_collection :: string
  DropIndexes_database :: string
  DropIndexes_deployment :: "Deployment option"
  DropIndexes_result :: DropIndexesResult

definition DropIndexes_Execute ::
  "DropIndexes Executor \<Rightarrow> DropIndexes \<Rightarrow> error option \<times> DropIndexes \<times> Document list" where
  "DropIndexes_Execute execute di =
     (if DropIndexes_deployment di = None then
        (Some (ErrorString
           ''the DropIndexes operation must have a Deployment set before Execute can be called''),
         di, [])
      else execute di)"

section \<open>The live topology\<close>

subsection \<open>Channels\<close>

text \<open>
  A Go channel of topology descriptions: its capacity, the values buffered in it
  (oldest first) and whether it has been closed. An operation on a channel may return,
  block forever or panic; so may every function that performs one.
\<close>

record chan =
  cap :: nat
  buf :: "Topology list"
  closed :: bool

datatype 'a outcome = Returns 'a | Blocks | Panics

definition make_chan :: "nat \<Rightarrow> chan" where
  "make_chan n = \<lparr>cap = n, buf = [], closed = False\<rparr>"

text \<open>
  \<open>ch <- v\<close> with no receiver waiting: panics on a closed channel, enqueues when the
  buffer has room, blocks otherwise.
\<close>

definition chan_send :: "Topology \<Rightarrow> chan \<Rightarrow> chan outcome" where
  "chan_send v ch =
     (if closed ch then Panics
      else if length (buf ch) < cap ch then Returns (ch\<lparr>buf := buf ch @ [v]\<rparr>)
      else Blocks)"

text \<open>
  \<open>select { case <-ch: default: }\<close>: takes the oldest buffered value when there is
  one and does nothing otherwise (on a closed and empty channel the receive yields the
  zero value and leaves the channel as it is).
\<close>

definition chan_drain :: "chan \<Rightarrow> chan" where
  "chan_drain ch = (case buf ch of [] \<Rightarrow> ch | v # vs \<Rightarrow> ch\<lparr>buf := vs\<rparr>)"

text \<open>\<open>close(ch)\<close> panics on a closed channel.\<close>

definition chan_close :: "chan \<Rightarrow> chan outcome" where
  "chan_close ch = (if closed ch then Panics else Returns (ch\<lparr>closed := True\<rparr>))"

text \<open>
  \<open><-ch\<close> as a subscriber does it: the oldest buffered value; on an empty channel the
  zero value when it is closed, and blocking (with no sender waiting) when it is open.
\<close>

definition chan_recv :: "chan \<Rightarrow> (Topology \<times> chan) outcome" where
  "chan_recv ch =
     (case buf ch of
        v # vs \<Rightarrow> Returns (v, ch\<lparr>buf := vs\<rparr>)
      | [] \<Rightarrow> if closed ch then Returns (Topology_zero, ch) else Blocks)"

subsection \<open>State\<close>

text \<open>
  The connection states of the topology package; the zero value of the
  \<open>connectionstate\<close> field is \<open>disconnected\<close>.
\<close>

datatype connectionstate = disconnected | disconnecting | connected | connecting

text \<open>The fields of the topology's \<open>config\<close> that the functions below read.\<close>

record config =
  uri :: string
  loadBalanced :: bool
  srvMaxHosts :: int

text \<open>
  The \<open>fsm\<close> struct embeds a \<open>description.Topology\<close> (so \<open>t.fsm.Servers\<close> is
  \<open>Servers (fsm_Topology (fsm t))\<close>) next to the maxima it tracks.
\<close>

record fsm =
  fsm_Topology :: Topology
  maxSetVersion :: "32 word"
  maxElectionID :: "8 word list"

text \<open>A live \<open>*Server\<close>, the monitor of one address.\<close>

record LiveServer =
  address :: Address

text \<open>
  What the topology does to the outside: the monitoring events it publishes and the
  \<open>Disconnect\<close> calls on servers (made in goroutines of their own for removed servers).
\<close>

datatype event =
  ServerDescriptionChangedEvent Server Server
  | ServerClosedEvent Address
  | TopologyDescriptionChangedEvent Topology Topology
  | TopologyOpeningEvent
  | TopologyClosedEvent
  | ServerDisconnect Address

text \<open>
  The \<open>Topology\<close> struct. Channels are shared between the topology and its subscribers:
  \<open>chans\<close> is the store of all channels made so far, and a channel is referred to by
  its position there. \<open>subscribers\<close> and \<open>servers\<close> are Go maps, kept as association
  lists that are only read and written through the map operations.
\<close>

record Topology_state =
  connectionstate :: connectionstate
  cfg :: config
  desc :: Topology
  pollingRequired :: bool
  fsm :: fsm
  chans :: "chan list"
  subscribers :: "(64 word \<times> nat) list"
  currentSubscriberID :: "64 word"
  subscriptionsClosed :: bool
  serversClosed :: bool
  servers :: "(Address \<times> LiveServer) list"
  events :: "event list"

record Subscription =
  Updates :: nat
  ID :: "64 word"

text \<open>
  The collaborators of the topology that are not part of the sources verified here
  are parameters: \<open>address.Address.Canonicalize\<close>, \<open>ConnectServer\<close> (which opens a
  monitor and may fail), the SDAM state machine \<open>fsm.apply\<close> with \<open>fsm.addServer\<close> and
  \<open>fsm.removeServerByAddr\<close>, and the random source of \<open>random.Shuffle\<close> (\<open>rng i\<close> is
  the number drawn for position \<open>i\<close>).
\<close>

record env =
  Canonicalize :: "Address \<Rightarrow> Address"
  ConnectServer :: "Address \<Rightarrow> error + LiveServer"
  fsm_apply :: "fsm \<Rightarrow> Server \<Rightarrow> fsm \<times> Topology \<times> Server"
  fsm_addServer :: "fsm \<Rightarrow> Address \<Rightarrow> fsm"
  fsm_removeServerByAddr :: "fsm \<Rightarrow> Address \<Rightarrow> fsm"
  rng :: "nat \<Rightarrow> nat"

subsection \<open>Functions of package description and of the fsm, from the specification\<close>

text \<open>
  Modelled from the spec: \<open>TopologyVersion.CompareToIncoming\<close> of package description
  is missing from the sources. The specification: the old version strictly dominates
  the incoming one when both have the same process id and the old counter is greater;
  ties and incomparable values (a missing version, another process id) do not. The
  result is positive exactly for domination, zero for a tie. Counters are \<open>int64\<close>.
\<close>

definition CompareToIncoming :: "TopologyVersion option \<Rightarrow> TopologyVersion option \<Rightarrow> int" where
  "CompareToIncoming tv responseTV =
     (case (tv, responseTV) of
        (Some old, Some incoming) \<Rightarrow>
          if ProcessID old \<noteq> ProcessID incoming then - 1
          else if Counter old = Counter incoming then 0
          else if sint (Counter old) < sint (Counter incoming) then - 1
          else 1
      | _ \<Rightarrow> - 1)"

text \<open>
  Modelled from the spec: \<open>Server.Equal\<close> and \<open>Topology.Equal\<close> of package description
  are missing from the sources. The specification: equality is field-wise deep.
\<close>

definition Server_Equal :: "Server \<Rightarrow> Server \<Rightarrow> bool" where
  "Server_Equal a b = (a = b)"

definition Topology_Equal :: "Topology \<Rightarrow> Topology \<Rightarrow> bool" where
  "Topology_Equal a b = (a = b)"

text \<open>
  Modelled from the spec: \<open>fsm.findServer\<close> is missing from the sources. The
  specification makes the canonicalised address the identity key of a server: the
  result is the position of the first server description with the canonical form of
  the address, and whether there is one.
\<close>

fun findServer_loop :: "Address \<Rightarrow> Server list \<Rightarrow> nat \<Rightarrow> nat \<times> bool" where
  "findServer_loop canon [] i = (0, False)"
| "findServer_loop canon (s # ss) i =
     (if canon = Addr s then (i, True) else findServer_loop canon ss (Suc i))"

definition findServer :: "env \<Rightarrow> fsm \<Rightarrow> Address \<Rightarrow> nat \<times> bool" where
  "findServer e f addr = findServer_loop (Canonicalize e addr) (Servers (fsm_Topology f)) 0"

text \<open>
  Modelled from the spec: \<open>diffTopology\<close> and \<open>diffHostList\<close> are missing from the
  sources. The specification: the diff yields \<open>{added, removed}\<close> by address; for a
  host list, versus the current address set. Added are the new entries not among the
  old addresses, removed the old entries not among the new addresses.
\<close>

record topologyDiff =
  Added :: "Server list"
  Removed :: "Server list"

definition diffTopology :: "Topology \<Rightarrow> Topology \<Rightarrow> topologyDiff" where
  "diffTopology old new =
     \<lparr>Added = filter (\<lambda>s. Addr s \<notin> Addr ` set (Servers old)) (Servers new),
      Removed = filter (\<lambda>s. Addr s \<notin> Addr ` set (Servers new)) (Servers old)\<rparr>"

record hostlistDiff =
  Added_hosts :: "string list"
  Removed_hosts :: "string list"

definition diffHostList :: "Topology \<Rightarrow> string list \<Rightarrow> hostlistDiff" where
  "diffHostList t hostlist =
     \<lparr>Added_hosts = filter (\<lambda>h. h \<notin> Addr ` set (Servers t)) hostlist,
      Removed_hosts = filter (\<lambda>a. a \<notin> set hostlist) (map Addr (Servers t))\<rparr>"

subsection \<open>Events\<close>

definition publishServerDescriptionChangedEvent ::
  "Server \<Rightarrow> Server \<Rightarrow> Topology_state \<Rightarrow> Topology_state" where
  "publishServerDescriptionChangedEvent prev current t =
     t\<lparr>events := events t @ [ServerDescriptionChangedEvent prev current]\<rparr>"

definition publishServerClosedEvent :: "Address \<Rightarrow> Topology_state \<Rightarrow> Topology_state" where
  "publishServerClosedEvent addr t = t\<lparr>events := events t @ [ServerClosedEvent addr]\<rparr>"

definition publishTopologyDescriptionChangedEvent ::
  "Topology \<Rightarrow> Topology \<Rightarrow> Topology_state \<Rightarrow> Topology_state" where
  "publishTopologyDescriptionChangedEvent prev current t =
     t\<lparr>events := events t @ [TopologyDescriptionChangedEvent prev current]\<rparr>"

definition publishTopologyOpeningEvent :: "Topology_state \<Rightarrow> Topology_state" where
  "publishTopologyOpeningEvent t = t\<lparr>events := events t @ [TopologyOpeningEvent]\<rparr>"

definition publishTopologyClosedEvent :: "Topology_state \<Rightarrow> Topology_state" where
  "publishTopologyClosedEvent t = t\<lparr>events := events t @ [TopologyClosedEvent]\<rparr>"

text \<open>
  \<open>go func() { ...; _ = s.Disconnect(cancelCtx) }()\<close> and \<open>server.Disconnect(ctx)\<close>:
  the call is recorded.
\<close>

definition disconnectServer :: "LiveServer \<Rightarrow> Topology_state \<Rightarrow> Topology_state" where
  "disconnectServer s t = t\<lparr>events := events t @ [ServerDisconnect (address s)]\<rparr>"

subsection \<open>New, Subscribe, Unsubscribe, Disconnect\<close>

text \<open>
  \<open>New\<close>, given the configuration that \<open>newConfig\<close> built and the state machine that
  \<open>newFSM\<close> made.
\<close>

definition New :: "config \<Rightarrow> fsm \<Rightarrow> Topology_state" where
  "New c f =
     publishTopologyOpeningEvent
       \<lparr>connectionstate = disconnected, cfg = c, desc = Topology_zero,
        pollingRequired =
          (uri c \<noteq> [] \<and> take 14 (uri c) = ''mongodb+srv://'' \<and> \<not> loadBalanced c),
        fsm = f, chans = [], subscribers = [], currentSubscriberID = 0,
        subscriptionsClosed = False, serversClosed = False, servers = [], events = []\<rparr>"

text \<open>
  \<open>Subscribe\<close>. The channel is made and filled before the lock is taken and
  \<open>subscriptionsClosed\<close> is tested, so it exists in the store also when the call
  fails with \<open>ErrSubscribeAfterClosed\<close>.
\<close>

definition Topology_Subscribe ::
  "Topology_state \<Rightarrow> ((error + Subscription) \<times> Topology_state) outcome" where
  "Topology_Subscribe t =
     (if connectionstate t \<noteq> connected then
        Returns (Inl (ErrorString ''cannot subscribe to Topology that is not connected''), t)
      else
        (case chan_send (desc t) (make_chan 1) of
           Blocks \<Rightarrow> Blocks
         | Panics \<Rightarrow> Panics
         | Returns ch \<Rightarrow>
             (let r = length (chans t);
                  t1 = t\<lparr>chans := chans t @ [ch]\<rparr>
              in if subscriptionsClosed t1 then Returns (Inl ErrSubscribeAfterClosed, t1)
                 else
                   (let i = currentSubscriberID t1
                    in Returns
                         (Inr \<lparr>Updates = r, ID = i\<rparr>,
                          t1\<lparr>subscribers := AList.update i r (subscribers t1),
                             currentSubscriberID := i + 1\<rparr>)))))"

text \<open>
  A reference that is not in the store stands for a nil channel: a receive with
  \<open>default\<close> does nothing on it, a send blocks forever, \<open>close\<close> panics.
\<close>

definition lookup_chan :: "chan list \<Rightarrow> nat \<Rightarrow> chan option" where
  "lookup_chan h r = (if r < length h then Some (h ! r) else None)"

definition Topology_Unsubscribe ::
  "Subscription \<Rightarrow> Topology_state \<Rightarrow> (error option \<times> Topology_state) outcome" where
  "Topology_Unsubscribe sub t =
     (if subscriptionsClosed t then Returns (None, t)
      else
        (case map_of (subscribers t) (ID sub) of
           None \<Rightarrow> Returns (None, t)
         | Some r \<Rightarrow>
             (case lookup_chan (chans t) r of
                None \<Rightarrow> Panics
              | Some ch \<Rightarrow>
                  (case chan_close ch of
                     Blocks \<Rightarrow> Blocks
                   | Panics \<Rightarrow> Panics
                   | Returns ch' \<Rightarrow>
                       Returns (None,
                         t\<lparr>chans := (chans t)[r := ch'],
                           subscribers := AList.delete (ID sub) (subscribers t)\<rparr>)))))"

text \<open>The two loops of \<open>Disconnect\<close>: over the copied server map, and over the subscribers.\<close>

fun disconnect_servers :: "(Address \<times> LiveServer) list \<Rightarrow> Topology_state \<Rightarrow> Topology_state" where
  "disconnect_servers [] t = t"
| "disconnect_servers ((addr, server) # ss) t =
     disconnect_servers ss (publishServerClosedEvent (address server) (disconnectServer server t))"

fun close_subscribers :: "(64 word \<times> nat) list \<Rightarrow> Topology_state \<Rightarrow> Topology_state outcome" where
  "close_subscribers [] t = Returns t"
| "close_subscribers ((i, r) # subs) t =
     (case lookup_chan (chans t) r of
        None \<Rightarrow> Panics
      | Some ch \<Rightarrow>
          (case chan_close ch of
             Blocks \<Rightarrow> Blocks
           | Panics \<Rightarrow> Panics
           | Returns ch' \<Rightarrow>
               close_subscribers subs
                 (t\<lparr>chans := (chans t)[r := ch'],
                    subscribers := AList.delete i (subscribers t)\<rparr>)))"

text \<open>
  \<open>Disconnect\<close>. The compare-and-swap from \<open>connected\<close> to \<open>disconnecting\<close> fails in
  every other state, and the call then returns \<open>ErrTopologyClosed\<close> at once. The
  hand-over to the SRV polling goroutine (\<open>pollingDone\<close>, \<open>pollingwg\<close>) happens between
  goroutines and has no counterpart in the state.
\<close>

definition Topology_Disconnect ::
  "Topology_state \<Rightarrow> (error option \<times> Topology_state) outcome" where
  "Topology_Disconnect t =
     (if connectionstate t \<noteq> connected then Returns (Some ErrTopologyClosed, t)
      else
        (let t1 = t\<lparr>connectionstate := disconnecting, serversClosed := True\<rparr>;
             t2 = disconnect_servers (servers t1) t1
         in case close_subscribers (subscribers t2) t2 of
              Blocks \<Rightarrow> Blocks
            | Panics \<Rightarrow> Panics
            | Returns t3 \<Rightarrow>
                Returns (None,
                  publishTopologyClosedEvent
                    (t3\<lparr>subscriptionsClosed := True, desc := Topology_zero,
                        connectionstate := disconnected\<rparr>))))"

text \<open>A subscriber receiving from the channel of its subscription.\<close>

definition subscriber_receive ::
  "Subscription \<Rightarrow> Topology_state \<Rightarrow> (Topology \<times> Topology_state) outcome" where
  "subscriber_receive sub t =
     (case lookup_chan (chans t) (Updates sub) of
        None \<Rightarrow> Blocks
      | Some ch \<Rightarrow>
          (case chan_recv ch of
             Blocks \<Rightarrow> Blocks
           | Panics \<Rightarrow> Panics
           | Returns (v, ch') \<Rightarrow> Returns (v, t\<lparr>chans := (chans t)[Updates sub := ch']\<rparr>)))"

subsection \<open>Publishing to the subscribers\<close>

text \<open>
  The loop that \<open>apply\<close> and \<open>processSRVResults\<close> both end with: for every subscriber,
  a pending value is drained from its channel and the new description is sent.
\<close>

fun publish_loop :: "Topology \<Rightarrow> (64 word \<times> nat) list \<Rightarrow> chan list \<Rightarrow> chan list outcome" where
  "publish_loop newDesc [] h = Returns h"
| "publish_loop newDesc ((i, r) # subs) h =
     (case lookup_chan h r of
        None \<Rightarrow> Blocks
      | Some ch \<Rightarrow>
          (case chan_send newDesc (chan_drain ch) of
             Blocks \<Rightarrow> Blocks
           | Panics \<Rightarrow> Panics
           | Returns ch' \<Rightarrow> publish_loop newDesc subs (h[r := ch'])))"

subsection \<open>addServer, processSRVResults, apply\<close>

definition addServer :: "env \<Rightarrow> Address \<Rightarrow> Topology_state \<Rightarrow> error option \<times> Topology_state" where
  "addServer e addr t =
     (case map_of (servers t) addr of
        Some s \<Rightarrow> (None, t)
      | None \<Rightarrow>
          (case ConnectServer e addr of
             Inl err \<Rightarrow> (Some err, t)
           | Inr svr \<Rightarrow> (None, t\<lparr>servers := AList.update addr svr (servers t)\<rparr>)))"

text \<open>
  \<open>random.Shuffle(n, swap)\<close> is Go's Fisher-Yates shuffle: for \<open>i\<close> from \<open>n - 1\<close> down
  to 1 it draws \<open>j\<close> in \<open>[0, i]\<close> and swaps positions \<open>i\<close> and \<open>j\<close>.
\<close>

definition swap :: "nat \<Rightarrow> nat \<Rightarrow> 'a list \<Rightarrow> 'a list" where
  "swap i j xs = xs[i := xs ! j, j := xs ! i]"

fun Shuffle_loop :: "(nat \<Rightarrow> nat) \<Rightarrow> nat \<Rightarrow> 'a list \<Rightarrow> 'a list" where
  "Shuffle_loop r 0 xs = xs"
| "Shuffle_loop r (Suc i) xs =
     Shuffle_loop r i (swap (Suc i) (r (Suc i) mod (Suc (Suc i))) xs)"

definition Shuffle :: "(nat \<Rightarrow> nat) \<Rightarrow> 'a list \<Rightarrow> 'a list" where
  "Shuffle r xs = Shuffle_loop r (length xs - 1) xs"

text \<open>The loop of \<open>processSRVResults\<close> over \<open>diff.Removed\<close>.\<close>

fun remove_hosts :: "env \<Rightarrow> string list \<Rightarrow> Topology_state \<Rightarrow> Topology_state" where
  "remove_hosts e [] t = t"
| "remove_hosts e (r # rs) t =
     (let addr = Canonicalize e r
      in case map_of (servers t) addr of
           None \<Rightarrow> remove_hosts e rs t
         | Some s \<Rightarrow>
             remove_hosts e rs
               (publishServerClosedEvent (address s)
                  ((disconnectServer s t)
                     \<lparr>servers := AList.delete addr (servers t),
                      fsm := fsm_removeServerByAddr e (fsm t) addr\<rparr>)))"

text \<open>
  The added hosts in the order they are tried: shuffled when \<open>srvMaxHosts\<close> is
  positive and adding all of them would pass it.
\<close>

definition added_order :: "env \<Rightarrow> Topology_state \<Rightarrow> string list \<Rightarrow> string list" where
  "added_order e t added =
     (if srvMaxHosts (cfg t) > 0
         \<and> int (length (servers t)) + int (length added) > srvMaxHosts (cfg t)
      then Shuffle (rng e) added else added)"

text \<open>
  The loop over the added hosts: it breaks as soon as the number of servers has
  reached a positive \<open>srvMaxHosts\<close>; the error of \<open>addServer\<close> is dropped.
\<close>

fun add_hosts :: "env \<Rightarrow> string list \<Rightarrow> Topology_state \<Rightarrow> Topology_state" where
  "add_hosts e [] t = t"
| "add_hosts e (a # as) t =
     (if srvMaxHosts (cfg t) > 0 \<and> int (length (servers t)) \<ge> srvMaxHosts (cfg t) then t
      else
        (let addr = Canonicalize e a;
             t1 = snd (addServer e addr t)
         in add_hosts e as (t1\<lparr>fsm := fsm_addServer e (fsm t1) addr\<rparr>)))"

definition processSRVResults ::
  "env \<Rightarrow> string list \<Rightarrow> Topology_state \<Rightarrow> (bool \<times> Topology_state) outcome" where
  "processSRVResults e parsedHosts t =
     (if serversClosed t then Returns (False, t)
      else
        (let prev = fsm_Topology (fsm t);
             diff = diffHostList (fsm_Topology (fsm t)) parsedHosts
         in if length (Added_hosts diff) = 0 \<and> length (Removed_hosts diff) = 0
            then Returns (True, t)
            else
              (let t1 = remove_hosts e (Removed_hosts diff) t;
                   t2 = add_hosts e (added_order e t1 (Added_hosts diff)) t1;
                   newDesc = \<lparr>TopoKind = TopoKind (fsm_Topology (fsm t2)),
                              Servers = Servers (fsm_Topology (fsm t2)),
                              SetName = [],
                              SessionTimeoutMinutes = SessionTimeoutMinutes (fsm_Topology (fsm t2)),
                              CompatibilityErr = None\<rparr>;
                   t3 = t2\<lparr>desc := newDesc\<rparr>;
                   t4 = (if \<not> Topology_Equal prev newDesc
                         then publishTopologyDescriptionChangedEvent prev newDesc t3 else t3)
               in case publish_loop newDesc (subscribers t4) (chans t4) of
                    Blocks \<Rightarrow> Blocks
                  | Panics \<Rightarrow> Panics
                  | Returns h \<Rightarrow> Returns (True, t4\<lparr>chans := h\<rparr>))))"

text \<open>The loops of \<open>apply\<close> over \<open>diff.Removed\<close> and \<open>diff.Added\<close>.\<close>

fun remove_servers :: "Server list \<Rightarrow> Topology_state \<Rightarrow> Topology_state" where
  "remove_servers [] t = t"
| "remove_servers (removed # rs) t =
     (case map_of (servers t) (Addr removed) of
        Some s \<Rightarrow>
          remove_servers rs
            (publishServerClosedEvent (address s)
               ((disconnectServer s t)\<lparr>servers := AList.delete (Addr removed) (servers t)\<rparr>))
      | None \<Rightarrow> remove_servers rs t)"

fun add_servers :: "env \<Rightarrow> Server list \<Rightarrow> Topology_state \<Rightarrow> Topology_state" where
  "add_servers e [] t = t"
| "add_servers e (added # as) t = add_servers e as (snd (addServer e (Addr added) t))"

text \<open>
  \<open>apply\<close>, the update callback of the server monitors. \<open>t.fsm.Servers[ind]\<close> panics
  when the index is out of range.
\<close>

definition Topology_apply ::
  "env \<Rightarrow> Server \<Rightarrow> Topology_state \<Rightarrow> (Server \<times> Topology_state) outcome" where
  "Topology_apply e d t =
     (let (ind, ok) = findServer e (fsm t) (Addr d)
      in if serversClosed t \<or> \<not> ok then Returns (d, t)
         else
           (let prev = fsm_Topology (fsm t)
            in if ind \<ge> length (Servers prev) then Panics
               else
                 (let oldDesc = Servers prev ! ind
                  in if CompareToIncoming (TopologyVersion oldDesc) (TopologyVersion d) > 0
                     then Returns (oldDesc, t)
                     else
                       (let (f', current, d') = fsm_apply e (fsm t) d;
                            t1 = t\<lparr>fsm := f'\<rparr>;
                            t2 = (if \<not> Server_Equal oldDesc d'
                                  then publishServerDescriptionChangedEvent oldDesc d' t1
                                  else t1);
                            diff = diffTopology prev current;
                            t3 = remove_servers (Removed diff) t2;
                            t4 = add_servers e (Added diff) t3;
                            t5 = t4\<lparr>desc := current\<rparr>;
                            t6 = (if \<not> Topology_Equal prev current
                                  then publishTopologyDescriptionChangedEvent prev current t5
                                  else t5)
                        in case publish_loop current (subscribers t6) (chans t6) of
                             Blocks \<Rightarrow> Blocks
                           | Panics \<Rightarrow> Panics
                           | Returns h \<Rightarrow> Returns (d', t6\<lparr>chans := h\<rparr>)))))"

subsection \<open>The state of the subscribers\<close>

text \<open>
  What holds of the subscribers of a topology between calls: no channel is registered
  twice, and every registered channel is in the store, has capacity 1, is open, and is
  either empty or holds the current description and nothing else.
\<close>

definition subscribers_ok :: "Topology_state \<Rightarrow> bool" where
  "subscribers_ok t =
     (distinct (map snd (subscribers t))
      \<and> (\<forall>(i, r) \<in> set (subscribers t).
            r < length (chans t) \<and> cap (chans t ! r) = 1 \<and> \<not> closed (chans t ! r)
            \<and> (buf (chans t ! r) = [] \<or> buf (chans t ! r) = [desc t])))"

text \<open>
  An environment for concrete runs: addresses are canonical as they are, every
  connection succeeds, the state machine stores the incoming description in the
  place of the one with its address, and every draw is 0.
\<close>

definition example_env :: env where
  "example_env =
     \<lparr>Canonicalize = (\<lambda>a. a),
      ConnectServer = (\<lambda>a. Inr \<lparr>address = a\<rparr>),
      fsm_apply = (\<lambda>f d.
        (let top = (fsm_Topology f)
               \<lparr>Servers := map (\<lambda>s. if Addr s = Addr d then d else s) (Servers (fsm_Topology f))\<rparr>
         in (f\<lparr>fsm_Topology := top\<rparr>, top, d))),
      fsm_addServer = (\<lambda>f a.
        f\<lparr>fsm_Topology := (fsm_Topology f)
            \<lparr>Servers := Servers (fsm_Topology f) @ [\<lparr>Addr = a, Kind = Unknown, TopologyVersion = None\<rparr>]\<rparr>\<rparr>),
      fsm_removeServerByAddr = (\<lambda>f a.
        f\<lparr>fsm_Topology := (fsm_Topology f)
            \<lparr>Servers := filter (\<lambda>s. Addr s \<noteq> a) (Servers (fsm_Topology f))\<rparr>\<rparr>),
      rng = (\<lambda>i. 0)\<rparr>"

text \<open>
  A connected sharded topology for concrete runs: two monitored mongos \<open>h1\<close> and
  \<open>h2\<close>, a cap of three SRV hosts, and one subscriber that has not yet read the
  description in its channel.
\<close>

definition example_description :: Topology where
  "example_description =
     \<lparr>TopoKind = Sharded,
      Servers = [\<lparr>Addr = ''h1:27017'', Kind = Mongos,
                  TopologyVersion = Some \<lparr>ProcessID = [1], Counter = 5\<rparr>\<rparr>,
                 \<lparr>Addr = ''h2:27017'', Kind = Mongos, TopologyVersion = None\<rparr>],
      SetName = [], SessionTimeoutMinutes = 30, CompatibilityErr = None\<rparr>"

definition example_topology :: Topology_state where
  "example_topology =
     \<lparr>connectionstate = connected,
      cfg = \<lparr>uri = ''mongodb+srv://cluster.example.com'', loadBalanced = False, srvMaxHosts = 3\<rparr>,
      desc = example_description,
      pollingRequired = True,
      fsm = \<lparr>fsm_Topology = example_description, maxSetVersion = 0, maxElectionID = []\<rparr>,
      chans = [\<lparr>cap = 1, buf = [example_description], closed = False\<rparr>],
      subscribers = [(0, 0)],
      currentSubscriberID = 1,
      subscriptionsClosed = False,
      serversClosed = False,
      servers = [(''h1:27017'', \<lparr>address = ''h1:27017''\<rparr>),
                 (''h2:27017'', \<lparr>address = ''h2:27017''\<rparr>)],
      events = []\<rparr>"

text \<open>The example topology after \<open>Disconnect\<close> has completed.\<close>

definition example_disconnected :: Topology_state where
  "example_disconnected =
     example_topology
       \<lparr>connectionstate := disconnected,
        desc := Topology_zero,
        chans := [\<lparr>cap = 1, buf = [example_description], closed = True\<rparr>],
        subscribers := [],
        subscriptionsClosed := True,
        serversClosed := True,
        events := [ServerDisconnect ''h1:27017'', ServerClosedEvent ''h1:27017'',
                   ServerDisconnect ''h2:27017'', ServerClosedEvent ''h2:27017'',
                   TopologyClosedEvent]\<rparr>"

section \<open>Properties of server selection\<close>

lemma allowed_loop_filter:
  "allowed_loop ss allowed = allowed @ filter (\<lambda>s. Kind s \<noteq> Unknown) ss"
  by (induction ss arbitrary: allowed) simp_all

text \<open>
  C2. A description whose compatibility error is set makes selection fail with exactly
  that error, whatever the selector, the topology kind and the servers are: the result
  does not depend on the selector, which is therefore not consulted.
\<close>

theorem select_compatibility_error:
  assumes "CompatibilityErr td = Some err"
  shows "selectServerFromDescription td selectionState = Inl (Plain err)"
  using assms by (simp add: selectServerFromDescription_def)

theorem select_compatibility_error_witness:
  "selectServerFromDescription
     \<lparr>TopoKind = Sharded,
      Servers = [\<lparr>Addr = ''a:27017'', Kind = Mongos, TopologyVersion = None\<rparr>],
      SetName = [], SessionTimeoutMinutes = 0,
      CompatibilityErr = Some (ErrorString ''wire version too old'')\<rparr>
     \<lparr>selector = (\<lambda>t ss. Inr ss)\<rparr>
   = Inl (Plain (ErrorString ''wire version too old''))"
  by (rule select_compatibility_error) simp

text \<open>
  C3. Without a compatibility error and outside load-balanced mode, the selector is
  applied to the description and to the servers of the description whose kind is not
  \<open>Unknown\<close> (in their order), and the suitable servers returned are the selector's
  output; an error of the selector comes back wrapped with the description.
\<close>

theorem select_filters_unknown:
  assumes "TopoKind td \<noteq> LoadBalanced" and "CompatibilityErr td = None"
  shows "allowed_loop (Servers td) [] = filter (\<lambda>s. Kind s \<noteq> Unknown) (Servers td)
       \<and> set (allowed_loop (Servers td) []) = {s \<in> set (Servers td). Kind s \<noteq> Unknown}
       \<and> selectServerFromDescription td selectionState =
           (case selector selectionState td
                   (filter (\<lambda>s. Kind s \<noteq> Unknown) (Servers td)) of
              Inl err \<Rightarrow> Inl (ServerSelectionError err td)
            | Inr suitable \<Rightarrow> Inr suitable)"
  using assms by (simp add: selectServerFromDescription_def allowed_loop_filter)

theorem select_filters_unknown_witness:
  "allowed_loop
     [\<lparr>Addr = ''a:27017'', Kind = Unknown, TopologyVersion = None\<rparr>,
      \<lparr>Addr = ''b:27017'', Kind = RSSecondary, TopologyVersion = None\<rparr>] []
   = [\<lparr>Addr = ''b:27017'', Kind = RSSecondary, TopologyVersion = None\<rparr>]
   \<and> selectServerFromDescription
     \<lparr>TopoKind = ReplicaSetNoPrimary,
      Servers = [\<lparr>Addr = ''a:27017'', Kind = Unknown, TopologyVersion = None\<rparr>,
                 \<lparr>Addr = ''b:27017'', Kind = RSSecondary, TopologyVersion = None\<rparr>],
      SetName = ''rs0'', SessionTimeoutMinutes = 30, CompatibilityErr = None\<rparr>
     \<lparr>selector = (\<lambda>t ss. Inr ss)\<rparr>
   = Inr [\<lparr>Addr = ''b:27017'', Kind = RSSecondary, TopologyVersion = None\<rparr>]"
  using select_filters_unknown
    [of "\<lparr>TopoKind = ReplicaSetNoPrimary,
      Servers = [\<lparr>Addr = ''a:27017'', Kind = Unknown, TopologyVersion = None\<rparr>,
                 \<lparr>Addr = ''b:27017'', Kind = RSSecondary, TopologyVersion = None\<rparr>],
      SetName = ''rs0'', SessionTimeoutMinutes = 30, CompatibilityErr = None\<rparr>"
        "\<lparr>selector = (\<lambda>t ss. Inr ss)\<rparr>"]
  by simp

text \<open>
  C7, as stated, at a load-balanced description that carries a compatibility error: the
  check of \<open>CompatibilityErr\<close> comes first, so selection fails with that error and the
  load balancer is not returned.
\<close>

theorem select_load_balanced_counterexample:
  "selectServerFromDescription
     \<lparr>TopoKind = LoadBalanced,
      Servers = [\<lparr>Addr = ''lb:27017'', Kind = LoadBalancer, TopologyVersion = None\<rparr>],
      SetName = [], SessionTimeoutMinutes = 0,
      CompatibilityErr = Some (ErrorString ''wire version too old'')\<rparr>
     \<lparr>selector = (\<lambda>t ss. Inr ss)\<rparr>
   = Inl (Plain (ErrorString ''wire version too old''))
   \<and> selectServerFromDescription
     \<lparr>TopoKind = LoadBalanced,
      Servers = [\<lparr>Addr = ''lb:27017'', Kind = LoadBalancer, TopologyVersion = None\<rparr>],
      SetName = [], SessionTimeoutMinutes = 0,
      CompatibilityErr = Some (ErrorString ''wire version too old'')\<rparr>
     \<lparr>selector = (\<lambda>t ss. Inr ss)\<rparr>
   \<noteq> Inr [\<lparr>Addr = ''lb:27017'', Kind = LoadBalancer, TopologyVersion = None\<rparr>]"
  by (simp add: selectServerFromDescription_def)

text \<open>
  C7, amended. A load-balanced description without a compatibility error yields its
  server list as it is, for every selector: the selector is not consulted, not even
  one that rejects every server or fails.
\<close>

theorem select_load_balanced:
  assumes "TopoKind td = LoadBalanced" and "CompatibilityErr td = None"
  shows "selectServerFromDescription td selectionState = Inr (Servers td)"
  using assms by (simp add: selectServerFromDescription_def)

theorem select_load_balanced_witness:
  "selectServerFromDescription
     \<lparr>TopoKind = LoadBalanced,
      Servers = [\<lparr>Addr = ''lb:27017'', Kind = LoadBalancer, TopologyVersion = None\<rparr>],
      SetName = [], SessionTimeoutMinutes = 0, CompatibilityErr = None\<rparr>
     \<lparr>selector = (\<lambda>t ss. Inl (ErrorString ''no server''))\<rparr>
   = Inr [\<lparr>Addr = ''lb:27017'', Kind = LoadBalancer, TopologyVersion = None\<rparr>]"
  using select_load_balanced
    [of "\<lparr>TopoKind = LoadBalanced,
      Servers = [\<lparr>Addr = ''lb:27017'', Kind = LoadBalancer, TopologyVersion = None\<rparr>],
      SetName = [], SessionTimeoutMinutes = 0, CompatibilityErr = None\<rparr>"
        "\<lparr>selector = (\<lambda>t ss. Inl (ErrorString ''no server''))\<rparr>"]
  by simp

section \<open>Properties of the operations\<close>

lemma buildInsertResult_loop_no_n:
  "filter (\<lambda>e. fst e = ''n'') es = [] \<Longrightarrow> buildInsertResult_loop es ir = (ir, None)"
  by (induction es arbitrary: ir) (auto split: if_splits)

lemma buildInsertResult_loop_single_n:
  "filter (\<lambda>e. fst e = ''n'') es = [(''n'', Int32 v)] \<Longrightarrow>
   buildInsertResult_loop es ir = (ir\<lparr>InsertResult_N := v\<rparr>, None)"
proof (induction es arbitrary: ir)
  case Nil
  then show ?case by simp
next
  case (Cons e es)
  show ?case
  proof (cases "fst e = ''n''")
    case True
    with Cons.prems have e: "e = (''n'', Int32 v)" and rest: "filter (\<lambda>e. fst e = ''n'') es = []"
      by simp_all
    show ?thesis using e buildInsertResult_loop_no_n [OF rest] by simp
  next
    case False
    with Cons show ?thesis by simp
  qed
qed

lemma buildInsertResult_single_n:
  "filter (\<lambda>e. fst e = ''n'') es = [(''n'', Int32 v)] \<Longrightarrow>
   buildInsertResult (Doc es) = (\<lparr>InsertResult_N = v\<rparr>, None)"
  by (simp add: buildInsertResult_def buildInsertResult_loop_single_n)

lemma processResponse_calls_N:
  "InsertResult_N (Insert_result (processResponse_calls infos i)) =
   InsertResult_N (Insert_result i)
   + sum_list (map (\<lambda>info. InsertResult_N (fst (buildInsertResult (ServerResponse info)))) infos)"
  by (induction infos arbitrary: i)
     (simp_all add: Insert_processResponse_def split_beta add.assoc)

lemma sint_sum_list:
  "sint (sum_list (ws :: 32 word list)) = signed_take_bit 31 (sum_list (map sint ws))"
proof (induction ws)
  case Nil
  then show ?case by simp
next
  case (Cons w ws)
  have "sint (w + sum_list ws) = signed_take_bit 31 (sint w + sint (sum_list ws))"
    by (simp add: sint_word_ariths)
  also have "\<dots> = signed_take_bit 31 (sint w + signed_take_bit 31 (sum_list (map sint ws)))"
    by (simp add: Cons)
  also have "\<dots> = signed_take_bit 31 (sint w + sum_list (map sint ws))"
    by (metis signed_take_bit_add signed_take_bit_signed_take_bit min.idem)
  finally show ?case by simp
qed


lemma single_n_replies:
  assumes "list_all2 (\<lambda>info n. \<exists>es. ServerResponse info = Doc es
              \<and> filter (\<lambda>e. fst e = ''n'') es = [(''n'', Int32 n)]) infos ns"
  shows "map (\<lambda>info. buildInsertResult (ServerResponse info)) infos =
         map (\<lambda>n. (\<lparr>InsertResult_N = n\<rparr>, None)) ns"
  using assms
  by (induction rule: list_all2_induct) (auto simp: buildInsertResult_single_n)

text \<open>
  C8. When each per-batch reply is a well-formed document with one \<open>n\<close> element of
  BSON type int32, the calls of \<open>processResponse\<close> for the replies leave in \<open>result.N\<close>
  its initial value plus the sum of the replies' \<open>n\<close> fields, and none of the calls
  returns an error. The sum is Go's \<open>int32\<close> sum; as long as the integer sum fits in
  an \<open>int32\<close> it is the integer sum. Five replies with \<open>n = 10000\<close> to a new Insert give
  \<open>N = 50000\<close>.
\<close>

theorem insert_result_sums_batches:
  assumes "list_all2 (\<lambda>info n. \<exists>es. ServerResponse info = Doc es
              \<and> filter (\<lambda>e. fst e = ''n'') es = [(''n'', Int32 n)]) infos ns"
  shows "InsertResult_N (Insert_result (processResponse_calls infos i)) =
           InsertResult_N (Insert_result i) + sum_list ns
       \<and> (\<forall>info \<in> set infos. \<forall>j. fst (Insert_processResponse info j) = None)
       \<and> (- (2 ^ 31) \<le> sint (InsertResult_N (Insert_result i)) + sum_list (map sint ns)
          \<and> sint (InsertResult_N (Insert_result i)) + sum_list (map sint ns) < 2 ^ 31
          \<longrightarrow> sint (InsertResult_N (Insert_result (processResponse_calls infos i))) =
                sint (InsertResult_N (Insert_result i)) + sum_list (map sint ns))"
proof -
  let ?n0 = "InsertResult_N (Insert_result i)"
  have m: "map (\<lambda>info. buildInsertResult (ServerResponse info)) infos =
           map (\<lambda>n. (\<lparr>InsertResult_N = n\<rparr>, None)) ns"
    using assms by (rule single_n_replies)
  have "map (\<lambda>info. InsertResult_N (fst (buildInsertResult (ServerResponse info)))) infos =
        map (InsertResult_N \<circ> fst) (map (\<lambda>info. buildInsertResult (ServerResponse info)) infos)"
    by simp
  also have "\<dots> = ns"
    unfolding m by (simp add: comp_def)
  finally have total: "InsertResult_N (Insert_result (processResponse_calls infos i)) = ?n0 + sum_list ns"
    by (simp add: processResponse_calls_N)
  have noerr: "\<forall>info \<in> set infos. \<forall>j. fst (Insert_processResponse info j) = None"
  proof
    fix info assume "info \<in> set infos"
    then have "buildInsertResult (ServerResponse info)
                 \<in> set (map (\<lambda>info. buildInsertResult (ServerResponse info)) infos)"
      by simp
    then have "snd (buildInsertResult (ServerResponse info)) = None"
      unfolding m by auto
    then show "\<forall>j. fst (Insert_processResponse info j) = None"
      by (simp add: Insert_processResponse_def split_beta)
  qed
  have "sint (?n0 + sum_list ns) = signed_take_bit 31 (sint ?n0 + sum_list (map sint ns))"
    using sint_sum_list [of "?n0 # ns"] by simp
  then have exact: "- (2 ^ 31) \<le> sint ?n0 + sum_list (map sint ns)
          \<and> sint ?n0 + sum_list (map sint ns) < 2 ^ 31
          \<longrightarrow> sint (?n0 + sum_list ns) = sint ?n0 + sum_list (map sint ns)"
    by (simp add: signed_take_bit_int_eq_self)
  show ?thesis using total noerr exact by simp
qed

theorem insert_result_sums_batches_witness:
  "InsertResult_N (Insert_result (processResponse_calls
      [\<lparr>ServerResponse = Doc [(''n'', Int32 10000), (''ok'', OtherValue ''double'')]\<rparr>,
       \<lparr>ServerResponse = Doc [(''n'', Int32 10000), (''ok'', OtherValue ''double'')]\<rparr>,
       \<lparr>ServerResponse = Doc [(''n'', Int32 10000), (''ok'', OtherValue ''double'')]\<rparr>,
       \<lparr>ServerResponse = Doc [(''n'', Int32 10000), (''ok'', OtherValue ''double'')]\<rparr>,
       \<lparr>ServerResponse = Doc [(''n'', Int32 10000), (''ok'', OtherValue ''double'')]\<rparr>]
      (NewInsert []))) = 50000"
  using insert_result_sums_batches
    [of "[\<lparr>ServerResponse = Doc [(''n'', Int32 10000), (''ok'', OtherValue ''double'')]\<rparr>,
       \<lparr>ServerResponse = Doc [(''n'', Int32 10000), (''ok'', OtherValue ''double'')]\<rparr>,
       \<lparr>ServerResponse = Doc [(''n'', Int32 10000), (''ok'', OtherValue ''double'')]\<rparr>,
       \<lparr>ServerResponse = Doc [(''n'', Int32 10000), (''ok'', OtherValue ''double'')]\<rparr>,
       \<lparr>ServerResponse = Doc [(''n'', Int32 10000), (''ok'', OtherValue ''double'')]\<rparr>]"
        "[10000, 10000, 10000, 10000, 10000]" "NewInsert []"]
  by (simp add: NewInsert_def)

text \<open>
  C9. \<open>Execute\<close> of Insert, Count, Distinct, CreateIndexes and DropIndexes on an
  operation whose deployment is nil returns the operation's error, whatever the
  executor would do: the operation object, and with it the stored result, is
  unchanged, and no command is written.
\<close>

theorem execute_without_deployment:
  "(Insert_deployment i = None \<longrightarrow>
      Insert_Execute ex_i i =
        (Some (ErrorString
           ''the Insert operation must have a Deployment set before Execute can be called''),
         i, []))
 \<and> (Count_deployment c = None \<longrightarrow>
      Count_Execute ex_c c =
        (Some (ErrorString
           ''the Count operation must have a Deployment set before Execute can be called''),
         c, []))
 \<and> (Distinct_deployment d = None \<longrightarrow>
      Distinct_Execute ex_d d =
        (Some (ErrorString
           ''the Distinct operation must have a Deployment set before Execute can be called''),
         d, []))
 \<and> (CreateIndexes_deployment ci = None \<longrightarrow>
      CreateIndexes_Execute ex_ci ci =
        (Some (ErrorString
           ''the CreateIndexes operation must have a Deployment set before Execute can be called''),
         ci, []))
 \<and> (DropIndexes_deployment di = None \<longrightarrow>
      DropIndexes_Execute ex_di di =
        (Some (ErrorString
           ''the DropIndexes operation must have a Deployment set before Execute can be called''),
         di, []))"
  by (simp add: Insert_Execute_def Count_Execute_def Distinct_Execute_def
        CreateIndexes_Execute_def DropIndexes_Execute_def)

theorem execute_without_deployment_witness:
  "(\<exists>err. Insert_Execute
      (\<lambda>i. (None, i\<lparr>Insert_result := \<lparr>InsertResult_N = 7\<rparr>\<rparr>, [Doc [(''insert'', String ''c'')]]))
      (NewInsert [])
      = (Some err, NewInsert [], []))
 \<and> (\<exists>err. Count_Execute
      (\<lambda>c. (None, c\<lparr>Count_result := \<lparr>CountResult_N = 7\<rparr>\<rparr>, [Doc [(''count'', String ''c'')]]))
      NewCount
      = (Some err, NewCount, []))
 \<and> (\<exists>err. Distinct_Execute
      (\<lambda>d. (None, d\<lparr>Distinct_result := \<lparr>DistinctResult_Values = Some (Int32 7)\<rparr>\<rparr>,
             [Doc [(''distinct'', String ''c'')]]))
      \<lparr>Distinct_collection = ''c'', Distinct_database = ''db'', Distinct_deployment = None,
       Distinct_result = \<lparr>DistinctResult_Values = None\<rparr>\<rparr>
      = (Some err,
         \<lparr>Distinct_collection = ''c'', Distinct_database = ''db'', Distinct_deployment = None,
          Distinct_result = \<lparr>DistinctResult_Values = None\<rparr>\<rparr>, []))
 \<and> (\<exists>err. CreateIndexes_Execute
      (\<lambda>ci. (None, ci, [Doc [(''createIndexes'', String ''c'')]]))
      \<lparr>CreateIndexes_collection = ''c'', CreateIndexes_database = ''db'',
       CreateIndexes_deployment = None,
       CreateIndexes_result = \<lparr>CreatedCollectionAutomatically = False,
                                IndexesAfter = 0, IndexesBefore = 0\<rparr>\<rparr>
      = (Some err,
         \<lparr>CreateIndexes_collection = ''c'', CreateIndexes_database = ''db'',
          CreateIndexes_deployment = None,
          CreateIndexes_result = \<lparr>CreatedCollectionAutomatically = False,
                                   IndexesAfter = 0, IndexesBefore = 0\<rparr>\<rparr>, []))
 \<and> (\<exists>err. DropIndexes_Execute
      (\<lambda>di. (None, di\<lparr>DropIndexes_result := \<lparr>NIndexesWas = 7\<rparr>\<rparr>,
              [Doc [(''dropIndexes'', String ''c'')]]))
      \<lparr>DropIndexes_collection = ''c'', DropIndexes_database = ''db'',
       DropIndexes_deployment = None, DropIndexes_result = \<lparr>NIndexesWas = 0\<rparr>\<rparr>
      = (Some err,
         \<lparr>DropIndexes_collection = ''c'', DropIndexes_database = ''db'',
          DropIndexes_deployment = None, DropIndexes_result = \<lparr>NIndexesWas = 0\<rparr>\<rparr>, []))"
  using execute_without_deployment
    [of "NewInsert []"
        "\<lambda>i. (None, i\<lparr>Insert_result := \<lparr>InsertResult_N = 7\<rparr>\<rparr>, [Doc [(''insert'', String ''c'')]])"
        NewCount
        "\<lambda>c. (None, c\<lparr>Count_result := \<lparr>CountResult_N = 7\<rparr>\<rparr>, [Doc [(''count'', String ''c'')]])"
        "\<lparr>Distinct_collection = ''c'', Distinct_database = ''db'', Distinct_deployment = None,
          Distinct_result = \<lparr>DistinctResult_Values = None\<rparr>\<rparr>"
        "\<lambda>d. (None, d\<lparr>Distinct_result := \<lparr>DistinctResult_Values = Some (Int32 7)\<rparr>\<rparr>,
             [Doc [(''distinct'', String ''c'')]])"
        "\<lparr>CreateIndexes_collection = ''c'', CreateIndexes_database = ''db'',
          CreateIndexes_deployment = None,
          CreateIndexes_result = \<lparr>CreatedCollectionAutomatically = False,
                                   IndexesAfter = 0, IndexesBefore = 0\<rparr>\<rparr>"
        "\<lambda>ci. (None, ci, [Doc [(''createIndexes'', String ''c'')]])"
        "\<lparr>DropIndexes_collection = ''c'', DropIndexes_database = ''db'',
          DropIndexes_deployment = None, DropIndexes_result = \<lparr>NIndexesWas = 0\<rparr>\<rparr>"
        "\<lambda>di. (None, di\<lparr>DropIndexes_result := \<lparr>NIndexesWas = 7\<rparr>\<rparr>,
              [Doc [(''dropIndexes'', String ''c'')]])"]
  by (simp add: NewInsert_def NewCount_def)

text \<open>
  C10. With a deployment set, \<open>Count.Execute\<close> returns nil when the executor returns a
  \<open>driver.Error\<close> with code 26, and returns every other outcome of the executor as it
  is. In both cases the operation object is the one the executor left: \<open>Execute\<close>
  itself does not assign the result, so a result the executor did not touch and that
  was zero is still zero.
\<close>

theorem count_execute_namespace_not_found:
  assumes "Count_deployment c \<noteq> None" and "execute c = (err, c', sent)"
  shows "((\<exists>msg. err = Some (DriverError 26 msg)) \<longrightarrow>
            Count_Execute execute c = (None, c', sent))
       \<and> ((\<nexists>msg. err = Some (DriverError 26 msg)) \<longrightarrow>
            Count_Execute execute c = (err, c', sent))
       \<and> (Count_result c' = Count_result c \<and> CountResult_N (Count_result c) = 0 \<longrightarrow>
            CountResult_N (Count_result (fst (snd (Count_Execute execute c)))) = 0)"
  using assms
  by (auto simp: Count_Execute_def split: option.splits error.splits)

theorem count_execute_namespace_not_found_witness:
  "Count_Execute (\<lambda>c. (Some (DriverError 26 ''ns not found''), c, [Doc [(''aggregate'', String ''c'')]]))
     (NewCount\<lparr>Count_deployment := Some (Deployment 0)\<rparr>)
   = (None, NewCount\<lparr>Count_deployment := Some (Deployment 0)\<rparr>, [Doc [(''aggregate'', String ''c'')]])
   \<and> CountResult_N (Count_result (fst (snd
        (Count_Execute (\<lambda>c. (Some (DriverError 26 ''ns not found''), c, [Doc [(''aggregate'', String ''c'')]]))
           (NewCount\<lparr>Count_deployment := Some (Deployment 0)\<rparr>))))) = 0
   \<and> Count_Execute (\<lambda>c. (Some (DriverError 13 ''unauthorized''), c, [Doc [(''aggregate'', String ''c'')]]))
     (NewCount\<lparr>Count_deployment := Some (Deployment 0)\<rparr>)
   = (Some (DriverError 13 ''unauthorized''), NewCount\<lparr>Count_deployment := Some (Deployment 0)\<rparr>,
      [Doc [(''aggregate'', String ''c'')]])"
  using count_execute_namespace_not_found
    [of "NewCount\<lparr>Count_deployment := Some (Deployment 0)\<rparr>"
        "\<lambda>c. (Some (DriverError 26 ''ns not found''), c, [Doc [(''aggregate'', String ''c'')]])"
        "Some (DriverError 26 ''ns not found'')"
        "NewCount\<lparr>Count_deployment := Some (Deployment 0)\<rparr>"
        "[Doc [(''aggregate'', String ''c'')]]"]
    count_execute_namespace_not_found
    [of "NewCount\<lparr>Count_deployment := Some (Deployment 0)\<rparr>"
        "\<lambda>c. (Some (DriverError 13 ''unauthorized''), c, [Doc [(''aggregate'', String ''c'')]])"
        "Some (DriverError 13 ''unauthorized'')"
        "NewCount\<lparr>Count_deployment := Some (Deployment 0)\<rparr>"
        "[Doc [(''aggregate'', String ''c'')]]"]
  by (simp add: NewCount_def)

section \<open>Properties of the topology\<close>

subsection \<open>Auxiliary facts\<close>

lemma findServer_loop_found:
  "findServer_loop canon ss i = (ind, True) \<Longrightarrow>
   i \<le> ind \<and> ind - i < length ss \<and> Addr (ss ! (ind - i)) = canon"
proof (induction ss arbitrary: i)
  case Nil
  then show ?case by simp
next
  case (Cons s ss)
  show ?case
  proof (cases "canon = Addr s")
    case True
    with Cons.prems show ?thesis by simp
  next
    case False
    with Cons.prems have "findServer_loop canon ss (Suc i) = (ind, True)" by simp
    from Cons.IH [OF this] show ?thesis
      by (auto simp: Suc_diff_le)
  qed
qed

lemma findServer_found:
  assumes "findServer e f addr = (ind, True)"
  shows "ind < length (Servers (fsm_Topology f))"
    and "Addr (Servers (fsm_Topology f) ! ind) = Canonicalize e addr"
  using findServer_loop_found [of "Canonicalize e addr" "Servers (fsm_Topology f)" 0 ind] assms
  by (simp_all add: findServer_def)

lemma addServer_frame:
  "chans (snd (addServer e a t)) = chans t"
  "subscribers (snd (addServer e a t)) = subscribers t"
  "desc (snd (addServer e a t)) = desc t"
  "cfg (snd (addServer e a t)) = cfg t"
  "fsm (snd (addServer e a t)) = fsm t"
  "connectionstate (snd (addServer e a t)) = connectionstate t"
  by (simp_all add: addServer_def split: option.splits sum.splits)

lemma remove_servers_frame:
  "chans (remove_servers rs t) = chans t \<and> subscribers (remove_servers rs t) = subscribers t
   \<and> desc (remove_servers rs t) = desc t \<and> cfg (remove_servers rs t) = cfg t
   \<and> fsm (remove_servers rs t) = fsm t
   \<and> connectionstate (remove_servers rs t) = connectionstate t"
  by (induction rs arbitrary: t)
     (simp_all add: publishServerClosedEvent_def disconnectServer_def split: option.splits)

lemma add_servers_frame:
  "chans (add_servers e as t) = chans t \<and> subscribers (add_servers e as t) = subscribers t
   \<and> desc (add_servers e as t) = desc t \<and> cfg (add_servers e as t) = cfg t
   \<and> fsm (add_servers e as t) = fsm t
   \<and> connectionstate (add_servers e as t) = connectionstate t"
  by (induction as arbitrary: t) (simp_all add: addServer_frame)

lemma remove_hosts_frame:
  "chans (remove_hosts e rs t) = chans t \<and> subscribers (remove_hosts e rs t) = subscribers t
   \<and> desc (remove_hosts e rs t) = desc t \<and> cfg (remove_hosts e rs t) = cfg t
   \<and> connectionstate (remove_hosts e rs t) = connectionstate t"
  by (induction rs arbitrary: t)
     (simp_all add: publishServerClosedEvent_def disconnectServer_def Let_def split: option.splits)

lemma add_hosts_frame:
  "chans (add_hosts e as t) = chans t \<and> subscribers (add_hosts e as t) = subscribers t
   \<and> desc (add_hosts e as t) = desc t \<and> cfg (add_hosts e as t) = cfg t
   \<and> connectionstate (add_hosts e as t) = connectionstate t"
  by (induction as arbitrary: t) (simp_all add: addServer_frame Let_def)

lemma publish_loop_returns:
  assumes "\<forall>(i, r) \<in> set subs. r < length h \<and> cap (h ! r) = 1 \<and> \<not> closed (h ! r)
             \<and> length (buf (h ! r)) \<le> 1"
  shows "\<exists>h'. publish_loop d subs h = Returns h' \<and> length h' = length h
           \<and> (\<forall>r \<in> snd ` set subs. cap (h' ! r) = 1 \<and> \<not> closed (h' ! r) \<and> buf (h' ! r) = [d])
           \<and> (\<forall>r. r \<notin> snd ` set subs \<longrightarrow> h' ! r = h ! r)"
  using assms
proof (induction subs arbitrary: h)
  case Nil
  then show ?case by simp
next
  case (Cons p subs)
  obtain i r where p: "p = (i, r)" by (cases p)
  from Cons.prems p have r: "r < length h" "cap (h ! r) = 1" "\<not> closed (h ! r)"
    "length (buf (h ! r)) \<le> 1"
    by auto
  define ch' where "ch' = (chan_drain (h ! r))\<lparr>buf := buf (chan_drain (h ! r)) @ [d]\<rparr>"
  have drained: "buf (chan_drain (h ! r)) = []" "cap (chan_drain (h ! r)) = 1"
    "\<not> closed (chan_drain (h ! r))"
    using r by (auto simp: chan_drain_def split: list.splits)
  have send: "chan_send d (chan_drain (h ! r)) = Returns ch'"
    using drained by (simp add: chan_send_def ch'_def)
  have ch': "cap ch' = 1" "\<not> closed ch'" "buf ch' = [d]"
    using drained by (simp_all add: ch'_def)
  have pre: "\<forall>(i, r') \<in> set subs. r' < length (h[r := ch']) \<and> cap (h[r := ch'] ! r') = 1
       \<and> \<not> closed (h[r := ch'] ! r') \<and> length (buf (h[r := ch'] ! r')) \<le> 1"
    using Cons.prems r ch' by (auto simp: nth_list_update)
  from Cons.IH [OF pre] obtain h' where h':
    "publish_loop d subs (h[r := ch']) = Returns h'" "length h' = length h"
    "\<forall>r' \<in> snd ` set subs. cap (h' ! r') = 1 \<and> \<not> closed (h' ! r') \<and> buf (h' ! r') = [d]"
    "\<forall>r'. r' \<notin> snd ` set subs \<longrightarrow> h' ! r' = h[r := ch'] ! r'"
    by auto
  have step: "publish_loop d (p # subs) h = Returns h'"
    using p r send h'(1) by (simp add: lookup_chan_def)
  have here: "cap (h' ! r) = 1 \<and> \<not> closed (h' ! r) \<and> buf (h' ! r) = [d]"
  proof (cases "r \<in> snd ` set subs")
    case True
    with h'(3) show ?thesis by blast
  next
    case False
    with h'(4) have "h' ! r = h[r := ch'] ! r" by blast
    with r ch' show ?thesis by simp
  qed
  have rest: "\<forall>r'. r' \<notin> snd ` set (p # subs) \<longrightarrow> h' ! r' = h ! r'"
    using h'(4) p by (auto simp: nth_list_update)
  show ?case
    using step h'(2) h'(3) here rest p by auto
qed


lemma publish_ok:
  assumes ok: "subscribers_ok t" and same: "subscribers t' = subscribers t" "chans t' = chans t"
    and d: "desc t' = d"
  shows "\<exists>h. publish_loop d (subscribers t') (chans t') = Returns h
           \<and> subscribers_ok (t'\<lparr>chans := h\<rparr>)
           \<and> (\<forall>(i, r) \<in> set (subscribers t'). buf (h ! r) = [d])"
proof -
  have pre: "\<forall>(i, r) \<in> set (subscribers t). r < length (chans t) \<and> cap (chans t ! r) = 1
       \<and> \<not> closed (chans t ! r) \<and> length (buf (chans t ! r)) \<le> 1"
    using ok by (auto simp: subscribers_ok_def)
  from publish_loop_returns [OF pre, of d] obtain h where h:
    "publish_loop d (subscribers t) (chans t) = Returns h" "length h = length (chans t)"
    "\<forall>r \<in> snd ` set (subscribers t). cap (h ! r) = 1 \<and> \<not> closed (h ! r) \<and> buf (h ! r) = [d]"
    by blast
  have "distinct (map snd (subscribers t))"
    using ok by (simp add: subscribers_ok_def)
  moreover have "\<forall>(i, r) \<in> set (subscribers t). r < length h"
    using pre h(2) by auto
  ultimately have "subscribers_ok (t'\<lparr>chans := h\<rparr>)"
    using h(3) same d by (force simp: subscribers_ok_def)
  moreover have "\<forall>(i, r) \<in> set (subscribers t'). buf (h ! r) = [d]"
    using h(3) same by force
  ultimately show ?thesis using h(1) same by auto
qed

lemma apply_accepted:
  assumes ok: "subscribers_ok t"
    and fs: "findServer e (fsm t) (Addr sd) = (ind, True)"
    and open_: "\<not> serversClosed t"
    and cmp: "\<not> CompareToIncoming
                 (TopologyVersion (Servers (fsm_Topology (fsm t)) ! ind)) (TopologyVersion sd) > 0"
    and fa: "fsm_apply e (fsm t) sd = (f', current, d')"
  shows "\<exists>t'. Topology_apply e sd t = Returns (d', t') \<and> fsm t' = f' \<and> desc t' = current
           \<and> subscribers_ok t'
           \<and> (\<forall>(i, r) \<in> set (subscribers t'). buf (chans t' ! r) = [current])"
proof -
  have ind: "ind < length (Servers (fsm_Topology (fsm t)))"
    using findServer_found(1) [OF fs] .
  define oldDesc where "oldDesc = Servers (fsm_Topology (fsm t)) ! ind"
  define prev where "prev = fsm_Topology (fsm t)"
  define t5 where "t5 =
    (add_servers e (Added (diffTopology prev current))
      (remove_servers (Removed (diffTopology prev current))
        (if \<not> Server_Equal oldDesc d'
         then publishServerDescriptionChangedEvent oldDesc d' (t\<lparr>fsm := f'\<rparr>)
         else t\<lparr>fsm := f'\<rparr>)))\<lparr>desc := current\<rparr>"
  define t6 where "t6 = (if \<not> Topology_Equal prev current
                         then publishTopologyDescriptionChangedEvent prev current t5 else t5)"
  have frame: "subscribers t6 = subscribers t" "chans t6 = chans t" "desc t6 = current"
    by (simp_all add: t6_def t5_def add_servers_frame remove_servers_frame
          publishTopologyDescriptionChangedEvent_def publishServerDescriptionChangedEvent_def)
  have frame': "fsm t6 = f'"
    by (simp add: t6_def t5_def add_servers_frame remove_servers_frame
          publishTopologyDescriptionChangedEvent_def publishServerDescriptionChangedEvent_def)
  from publish_ok [OF ok frame] obtain h where h:
    "publish_loop current (subscribers t6) (chans t6) = Returns h"
    "subscribers_ok (t6\<lparr>chans := h\<rparr>)"
    "\<forall>(i, r) \<in> set (subscribers t6). buf (h ! r) = [current]"
    by blast
  have "Topology_apply e sd t = Returns (d', t6\<lparr>chans := h\<rparr>)"
    using fs open_ ind cmp fa h(1)
    unfolding Topology_apply_def t6_def t5_def prev_def oldDesc_def
    by (simp add: Let_def)
  then show ?thesis
    using h(2) h(3) frame frame' by auto
qed

lemma apply_publishes:
  assumes ok: "subscribers_ok t"
  shows "\<exists>d' t'. Topology_apply e sd t = Returns (d', t') \<and> subscribers_ok t'
           \<and> (t' = t \<or> (\<forall>(i, r) \<in> set (subscribers t'). buf (chans t' ! r) = [desc t']))"
proof -
  obtain ind found where fs: "findServer e (fsm t) (Addr sd) = (ind, found)"
    by (cases "findServer e (fsm t) (Addr sd)")
  show ?thesis
  proof (cases "serversClosed t \<or> \<not> found")
    case True
    then show ?thesis using fs ok by (auto simp: Topology_apply_def)
  next
    case False
    then have fs': "findServer e (fsm t) (Addr sd) = (ind, True)" and open_: "\<not> serversClosed t"
      using fs by auto
    have ind: "ind < length (Servers (fsm_Topology (fsm t)))"
      using findServer_found(1) [OF fs'] .
    show ?thesis
    proof (cases "CompareToIncoming
                 (TopologyVersion (Servers (fsm_Topology (fsm t)) ! ind)) (TopologyVersion sd) > 0")
      case True
      then show ?thesis
        using fs' open_ ind ok by (auto simp: Topology_apply_def)
    next
      case False
      obtain f' current d' where fa: "fsm_apply e (fsm t) sd = (f', current, d')"
        by (cases "fsm_apply e (fsm t) sd")
      from apply_accepted [OF ok fs' open_ False fa] show ?thesis by auto
    qed
  qed
qed

lemma set_update_subset: "set (AList.update k v al) \<subseteq> insert (k, v) (set al)"
  by (induction al) auto

lemma distinct_snd_update:
  "v \<notin> snd ` set al \<Longrightarrow> distinct (map snd al) \<Longrightarrow> distinct (map snd (AList.update k v al))"
proof (induction al)
  case Nil
  then show ?case by simp
next
  case (Cons p al)
  have "snd ` set (AList.update k v al) \<subseteq> insert v (snd ` set al)"
    using set_update_subset [of k v al] by force
  with Cons show ?case
    by (cases p) (auto simp: image_iff)
qed

lemma set_delete_subset: "set (AList.delete k al) \<subseteq> set al"
  by (auto simp: AList.delete_eq)

lemma distinct_snd_delete: "distinct (map snd al) \<Longrightarrow> distinct (map snd (AList.delete k al))"
  by (simp add: AList.delete_eq distinct_map_filter)

lemma Subscribe_ok:
  assumes ok: "subscribers_ok t"
  shows "(\<exists>res. Topology_Subscribe t = Returns res)
       \<and> (\<forall>res t'. Topology_Subscribe t = Returns (res, t') \<longrightarrow> subscribers_ok t')
       \<and> (\<forall>sub t'. Topology_Subscribe t = Returns (Inr sub, t') \<longrightarrow>
            lookup_chan (chans t') (Updates sub) = Some \<lparr>cap = 1, buf = [desc t], closed = False\<rparr>
            \<and> map_of (subscribers t') (ID sub) = Some (Updates sub))"
proof -
  define ch where "ch = \<lparr>cap = 1, buf = [desc t], closed = False\<rparr>"
  define t1 where "t1 = t\<lparr>chans := chans t @ [ch]\<rparr>"
  define t2 where "t2 = t1\<lparr>subscribers := AList.update (currentSubscriberID t) (length (chans t)) (subscribers t),
                            currentSubscriberID := currentSubscriberID t + 1\<rparr>"
  have send: "chan_send (desc t) (make_chan 1) = Returns ch"
    by (simp add: chan_send_def make_chan_def ch_def)
  have old: "\<forall>(i, r) \<in> set (subscribers t). r < length (chans t)"
    using ok by (auto simp: subscribers_ok_def)
  have ok1: "subscribers_ok t1"
    using ok by (auto simp: subscribers_ok_def t1_def nth_append)
  have fresh: "length (chans t) \<notin> snd ` set (subscribers t)"
    using old by force
  have "distinct (map snd (subscribers t2))"
    using distinct_snd_update [OF fresh] ok by (simp add: t2_def subscribers_ok_def)
  moreover have "\<forall>(i, r) \<in> set (subscribers t2).
            r < length (chans t2) \<and> cap (chans t2 ! r) = 1 \<and> \<not> closed (chans t2 ! r)
            \<and> (buf (chans t2 ! r) = [] \<or> buf (chans t2 ! r) = [desc t2])"
  proof (clarify)
    fix i r assume "(i, r) \<in> set (subscribers t2)"
    then have "(i, r) = (currentSubscriberID t, length (chans t)) \<or> (i, r) \<in> set (subscribers t)"
      using set_update_subset [of "currentSubscriberID t" "length (chans t)" "subscribers t"]
      by (auto simp: t2_def)
    then show "r < length (chans t2) \<and> cap (chans t2 ! r) = 1 \<and> \<not> closed (chans t2 ! r)
            \<and> (buf (chans t2 ! r) = [] \<or> buf (chans t2 ! r) = [desc t2])"
    proof
      assume "(i, r) = (currentSubscriberID t, length (chans t))"
      then show ?thesis by (simp add: t2_def t1_def ch_def)
    next
      assume "(i, r) \<in> set (subscribers t)"
      with ok show ?thesis
        by (auto simp: subscribers_ok_def t2_def t1_def nth_append)
    qed
  qed
  ultimately have ok2: "subscribers_ok t2"
    by (simp add: subscribers_ok_def)
  have look: "lookup_chan (chans t2) (length (chans t)) = Some ch"
    by (simp add: lookup_chan_def t2_def t1_def)
  have reg: "map_of (subscribers t2) (currentSubscriberID t) = Some (length (chans t))"
    by (simp add: t2_def update_conv')
  consider (nc) "connectionstate t \<noteq> connected"
    | (cl) "connectionstate t = connected" "subscriptionsClosed t"
    | (go) "connectionstate t = connected" "\<not> subscriptionsClosed t"
    by blast
  then show ?thesis
  proof cases
    case nc
    then show ?thesis using ok by (simp add: Topology_Subscribe_def)
  next
    case cl
    then have "Topology_Subscribe t = Returns (Inl ErrSubscribeAfterClosed, t1)"
      using send by (simp add: Topology_Subscribe_def t1_def Let_def)
    then show ?thesis using ok1 by simp
  next
    case go
    then have "Topology_Subscribe t =
        Returns (Inr \<lparr>Updates = length (chans t), ID = currentSubscriberID t\<rparr>, t2)"
      using send by (simp add: Topology_Subscribe_def t2_def t1_def Let_def)
    then show ?thesis using ok2 look reg by (simp add: ch_def)
  qed
qed

lemma processSRVResults_publishes:
  assumes ok: "subscribers_ok t"
  shows "\<exists>c t'. processSRVResults e hosts t = Returns (c, t') \<and> subscribers_ok t'
           \<and> (t' = t \<or> (\<forall>(i, r) \<in> set (subscribers t'). buf (chans t' ! r) = [desc t']))
           \<and> cfg t' = cfg t
           \<and> (servers t' = servers t
              \<or> servers t' = servers
                   (add_hosts e
                      (added_order e
                         (remove_hosts e (Removed_hosts (diffHostList (fsm_Topology (fsm t)) hosts)) t)
                         (Added_hosts (diffHostList (fsm_Topology (fsm t)) hosts)))
                      (remove_hosts e (Removed_hosts (diffHostList (fsm_Topology (fsm t)) hosts)) t)))"
proof -
  define diff where "diff = diffHostList (fsm_Topology (fsm t)) hosts"
  define t2 where "t2 = add_hosts e (added_order e (remove_hosts e (Removed_hosts diff) t) (Added_hosts diff))
                          (remove_hosts e (Removed_hosts diff) t)"
  define newDesc where "newDesc = \<lparr>TopoKind = TopoKind (fsm_Topology (fsm t2)),
                              Servers = Servers (fsm_Topology (fsm t2)),
                              SetName = [],
                              SessionTimeoutMinutes = SessionTimeoutMinutes (fsm_Topology (fsm t2)),
                              CompatibilityErr = None\<rparr>"
  define t4 where "t4 = (if \<not> Topology_Equal (fsm_Topology (fsm t)) newDesc
                         then publishTopologyDescriptionChangedEvent (fsm_Topology (fsm t)) newDesc
                                (t2\<lparr>desc := newDesc\<rparr>)
                         else t2\<lparr>desc := newDesc\<rparr>)"
  have frame: "subscribers t4 = subscribers t" "chans t4 = chans t" "desc t4 = newDesc"
    by (simp_all add: t4_def t2_def add_hosts_frame remove_hosts_frame
          publishTopologyDescriptionChangedEvent_def)
  have frame': "cfg t4 = cfg t" "servers t4 = servers t2"
    by (simp_all add: t4_def t2_def add_hosts_frame remove_hosts_frame
          publishTopologyDescriptionChangedEvent_def)
  from publish_ok [OF ok frame] obtain h where h:
    "publish_loop newDesc (subscribers t4) (chans t4) = Returns h"
    "subscribers_ok (t4\<lparr>chans := h\<rparr>)"
    "\<forall>(i, r) \<in> set (subscribers t4). buf (h ! r) = [newDesc]"
    by blast
  consider (closed) "serversClosed t"
    | (same) "\<not> serversClosed t" "Added_hosts diff = [] \<and> Removed_hosts diff = []"
    | (changed) "\<not> serversClosed t" "\<not> (Added_hosts diff = [] \<and> Removed_hosts diff = [])"
    by blast
  then show ?thesis
  proof cases
    case closed
    then show ?thesis using ok by (auto simp: processSRVResults_def)
  next
    case same
    then show ?thesis using ok by (auto simp: processSRVResults_def diff_def Let_def)
  next
    case changed
    have h1: "publish_loop newDesc (subscribers t) (chans t) = Returns h"
      using h(1) frame by simp
    have "processSRVResults e hosts t = Returns (True, t4\<lparr>chans := h\<rparr>)"
      using changed h1
      unfolding processSRVResults_def t4_def newDesc_def t2_def diff_def
      by (auto simp: Let_def add_hosts_frame remove_hosts_frame
            publishTopologyDescriptionChangedEvent_def)
    then show ?thesis
      using h(2) h(3) frame frame' by (auto simp: t2_def diff_def)
  qed
qed


lemma New_ok: "subscribers_ok (New c f)"
  by (simp add: subscribers_ok_def New_def publishTopologyOpeningEvent_def)

lemma distinct_snd_same:
  "distinct (map snd al) \<Longrightarrow> (a, r) \<in> set al \<Longrightarrow> (b, r) \<in> set al \<Longrightarrow> a = b"
proof -
  assume d: "distinct (map snd al)" and a: "(a, r) \<in> set al" and b: "(b, r) \<in> set al"
  from d have "inj_on snd (set al)" by (simp add: distinct_map)
  from inj_onD [OF this _ a b] show "a = b" by simp
qed

lemma receive_ok:
  assumes ok: "subscribers_ok t" and rv: "subscriber_receive sub t = Returns (v, t')"
  shows "subscribers_ok t'"
proof -
  from rv obtain ch ch' where ch: "Updates sub < length (chans t)" "ch = chans t ! Updates sub"
    "chan_recv ch = Returns (v, ch')" "t' = t\<lparr>chans := (chans t)[Updates sub := ch']\<rparr>"
    by (auto simp: subscriber_receive_def lookup_chan_def split: if_splits outcome.splits)
  have ch': "cap ch' = cap ch" "closed ch' = closed ch" "buf ch' = [] \<or> buf ch' = tl (buf ch)"
    using ch(3) by (auto simp: chan_recv_def split: list.splits if_splits)
  show ?thesis
    unfolding subscribers_ok_def
  proof (intro conjI ballI)
    show "distinct (map snd (subscribers t'))"
      using ok ch(4) by (simp add: subscribers_ok_def)
  next
    fix p assume p: "p \<in> set (subscribers t')"
    obtain i r where ir: "p = (i, r)" by (cases p)
    with p ch(4) have "(i, r) \<in> set (subscribers t)" by simp
    with ok have r: "r < length (chans t)" "cap (chans t ! r) = 1" "\<not> closed (chans t ! r)"
      "buf (chans t ! r) = [] \<or> buf (chans t ! r) = [desc t]"
      by (auto simp: subscribers_ok_def)
    show "case p of (i, r) \<Rightarrow> r < length (chans t') \<and> cap (chans t' ! r) = 1
            \<and> \<not> closed (chans t' ! r)
            \<and> (buf (chans t' ! r) = [] \<or> buf (chans t' ! r) = [desc t'])"
    proof (cases "r = Updates sub")
      case True
      with r ch ch' show ?thesis by (auto simp: ir)
    next
      case False
      with r ch(4) show ?thesis by (simp add: ir)
    qed
  qed
qed

lemma Unsubscribe_ok:
  assumes ok: "subscribers_ok t"
  shows "\<exists>t'. Topology_Unsubscribe sub t = Returns (None, t') \<and> subscribers_ok t'"
proof (cases "subscriptionsClosed t \<or> map_of (subscribers t) (ID sub) = None")
  case True
  then show ?thesis using ok by (auto simp: Topology_Unsubscribe_def)
next
  case False
  then obtain r where r: "map_of (subscribers t) (ID sub) = Some r" and op: "\<not> subscriptionsClosed t"
    by auto
  then have mem: "(ID sub, r) \<in> set (subscribers t)"
    by (simp add: map_of_SomeD)
  with ok have rr: "r < length (chans t)" "\<not> closed (chans t ! r)"
    by (auto simp: subscribers_ok_def)
  define t' where "t' = t\<lparr>chans := (chans t)[r := (chans t ! r)\<lparr>closed := True\<rparr>],
                           subscribers := AList.delete (ID sub) (subscribers t)\<rparr>"
  have run: "Topology_Unsubscribe sub t = Returns (None, t')"
    using r op rr by (simp add: Topology_Unsubscribe_def lookup_chan_def chan_close_def t'_def)
  have dist: "distinct (map snd (subscribers t))"
    using ok by (simp add: subscribers_ok_def)
  have "subscribers_ok t'"
    unfolding subscribers_ok_def
  proof (intro conjI ballI)
    show "distinct (map snd (subscribers t'))"
      using dist by (simp add: t'_def distinct_snd_delete)
  next
    fix p assume p: "p \<in> set (subscribers t')"
    obtain i r' where ir: "p = (i, r')" by (cases p)
    from p ir have in_del: "(i, r') \<in> set (AList.delete (ID sub) (subscribers t))"
      by (simp add: t'_def)
    then have in_old: "(i, r') \<in> set (subscribers t)" and ne: "i \<noteq> ID sub"
      by (auto simp: AList.delete_eq)
    have "r' \<noteq> r"
      using distinct_snd_same [OF dist in_old] mem ne by auto
    with ok in_old show "case p of (i, r) \<Rightarrow> r < length (chans t') \<and> cap (chans t' ! r) = 1
            \<and> \<not> closed (chans t' ! r)
            \<and> (buf (chans t' ! r) = [] \<or> buf (chans t' ! r) = [desc t'])"
      by (auto simp: subscribers_ok_def t'_def ir)
  qed
  with run show ?thesis by blast
qed

lemma disconnect_servers_frame:
  "chans (disconnect_servers ss t) = chans t \<and> subscribers (disconnect_servers ss t) = subscribers t
   \<and> connectionstate (disconnect_servers ss t) = connectionstate t"
  by (induction ss arbitrary: t)
     (auto simp: publishServerClosedEvent_def disconnectServer_def)

lemma close_subscribers_returns:
  assumes "distinct (map snd subs)"
    and "\<forall>(i, r) \<in> set subs. r < length (chans t) \<and> \<not> closed (chans t ! r)"
  shows "\<exists>t'. close_subscribers subs t = Returns t'
           \<and> fst ` set (subscribers t') \<subseteq> fst ` set (subscribers t) - fst ` set subs"
  using assms
proof (induction subs arbitrary: t)
  case Nil
  then show ?case by simp
next
  case (Cons p subs)
  obtain i r where p: "p = (i, r)" by (cases p)
  from Cons.prems p have r: "r < length (chans t)" "\<not> closed (chans t ! r)"
    and fresh: "r \<notin> snd ` set subs" and dist: "distinct (map snd subs)"
    by auto
  define t1 where "t1 = t\<lparr>chans := (chans t)[r := (chans t ! r)\<lparr>closed := True\<rparr>],
                          subscribers := AList.delete i (subscribers t)\<rparr>"
  have pre: "\<forall>(i, r') \<in> set subs. r' < length (chans t1) \<and> \<not> closed (chans t1 ! r')"
  proof (clarify)
    fix i' r' assume m: "(i', r') \<in> set subs"
    then have "r' \<noteq> r" using fresh by force
    moreover have "r' < length (chans t) \<and> \<not> closed (chans t ! r')"
      using Cons.prems(2) m by auto
    ultimately show "r' < length (chans t1) \<and> \<not> closed (chans t1 ! r')"
      by (simp add: t1_def)
  qed
  from Cons.IH [OF dist pre] obtain t' where t':
    "close_subscribers subs t1 = Returns t'"
    "fst ` set (subscribers t') \<subseteq> fst ` set (subscribers t1) - fst ` set subs"
    by blast
  have step: "close_subscribers (p # subs) t = Returns t'"
    using p r t'(1) by (simp add: lookup_chan_def chan_close_def t1_def)
  have "fst ` set (subscribers t1) \<subseteq> fst ` set (subscribers t) - {i}"
    using delete_notin_dom [of i "subscribers t"] dom_delete_subset [of i "subscribers t"]
    by (auto simp: t1_def)
  with t'(2) have "fst ` set (subscribers t') \<subseteq> fst ` set (subscribers t) - fst ` set (p # subs)"
    using p by (simp add: subset_iff)
  with step show ?case by blast
qed

lemma Disconnect_ok:
  assumes ok: "subscribers_ok t"
  shows "\<exists>res t'. Topology_Disconnect t = Returns (res, t') \<and> subscribers_ok t'"
proof (cases "connectionstate t = connected")
  case False
  then show ?thesis using ok by (simp add: Topology_Disconnect_def)
next
  case True
  define t2 where "t2 = disconnect_servers (servers t)
                          (t\<lparr>connectionstate := disconnecting, serversClosed := True\<rparr>)"
  have same: "subscribers t2 = subscribers t" "chans t2 = chans t"
    by (simp_all add: t2_def disconnect_servers_frame)
  have "distinct (map snd (subscribers t2))"
    and "\<forall>(i, r) \<in> set (subscribers t2). r < length (chans t2) \<and> \<not> closed (chans t2 ! r)"
    using ok same by (auto simp: subscribers_ok_def)
  from close_subscribers_returns [OF this] obtain t3 where t3:
    "close_subscribers (subscribers t2) t2 = Returns t3" "subscribers t3 = []"
    by auto
  have "Topology_Disconnect t = Returns (None,
          publishTopologyClosedEvent
            (t3\<lparr>subscriptionsClosed := True, desc := Topology_zero,
                connectionstate := disconnected\<rparr>))"
    using True t3(1) by (simp add: Topology_Disconnect_def t2_def Let_def)
  moreover have "subscribers_ok (publishTopologyClosedEvent
            (t3\<lparr>subscriptionsClosed := True, desc := Topology_zero,
                connectionstate := disconnected\<rparr>))"
    using t3(2) by (simp add: subscribers_ok_def publishTopologyClosedEvent_def)
  ultimately show ?thesis by blast
qed

lemma CompareToIncoming_dominates:
  "CompareToIncoming a b > 0 \<longleftrightarrow>
     (\<exists>old inc. a = Some old \<and> b = Some inc \<and> ProcessID old = ProcessID inc
        \<and> sint (Counter inc) < sint (Counter old))"
proof (cases a)
  case None
  then show ?thesis by (simp add: CompareToIncoming_def)
next
  case (Some old)
  note a = this
  show ?thesis
  proof (cases b)
    case None
    with a show ?thesis by (simp add: CompareToIncoming_def)
  next
    case (Some inc)
    have "Counter old = Counter inc \<longleftrightarrow> sint (Counter old) = sint (Counter inc)"
      by (rule word_eq_iff_signed)
    with a Some show ?thesis
      by (auto simp: CompareToIncoming_def not_less order_le_less)
  qed
qed

lemma example_topology_ok: "subscribers_ok example_topology"
  by (simp add: subscribers_ok_def example_topology_def)

lemma example_findServer:
  "findServer example_env (fsm example_topology) ''h1:27017'' = (0, True)"
  by (simp add: findServer_def example_env_def example_topology_def example_description_def)

lemma apply_accepted_run:
  assumes fs: "findServer e (fsm t) (Addr sd) = (ind, True)"
    and open_: "\<not> serversClosed t"
    and cmp: "\<not> CompareToIncoming
                 (TopologyVersion (Servers (fsm_Topology (fsm t)) ! ind)) (TopologyVersion sd) > 0"
    and fa: "fsm_apply e (fsm t) sd = (f', current, d')"
  shows "\<exists>t6. fsm t6 = f' \<and> desc t6 = current \<and> subscribers t6 = subscribers t
           \<and> chans t6 = chans t
           \<and> Topology_apply e sd t =
               (case publish_loop current (subscribers t) (chans t) of
                  Returns h \<Rightarrow> Returns (d', t6\<lparr>chans := h\<rparr>)
                | Blocks \<Rightarrow> Blocks
                | Panics \<Rightarrow> Panics)"
proof -
  have ind: "ind < length (Servers (fsm_Topology (fsm t)))"
    using findServer_found(1) [OF fs] .
  define oldDesc where "oldDesc = Servers (fsm_Topology (fsm t)) ! ind"
  define prev where "prev = fsm_Topology (fsm t)"
  define t5 where "t5 =
    (add_servers e (Added (diffTopology prev current))
      (remove_servers (Removed (diffTopology prev current))
        (if \<not> Server_Equal oldDesc d'
         then publishServerDescriptionChangedEvent oldDesc d' (t\<lparr>fsm := f'\<rparr>)
         else t\<lparr>fsm := f'\<rparr>)))\<lparr>desc := current\<rparr>"
  define t6 where "t6 = (if \<not> Topology_Equal prev current
                         then publishTopologyDescriptionChangedEvent prev current t5 else t5)"
  have frame: "subscribers t6 = subscribers t" "chans t6 = chans t" "desc t6 = current"
    "fsm t6 = f'"
    by (simp_all add: t6_def t5_def add_servers_frame remove_servers_frame
          publishTopologyDescriptionChangedEvent_def publishServerDescriptionChangedEvent_def)
  have "Topology_apply e sd t =
         (case publish_loop current (subscribers t6) (chans t6) of
            Returns h \<Rightarrow> Returns (d', t6\<lparr>chans := h\<rparr>)
          | Blocks \<Rightarrow> Blocks
          | Panics \<Rightarrow> Panics)"
    using fs open_ ind cmp fa
    unfolding Topology_apply_def t6_def t5_def prev_def oldDesc_def
    by (simp add: Let_def)
  then show ?thesis
    using frame by auto
qed

lemma apply_accepted_publishes:
  assumes ok: "subscribers_ok t"
    and fs: "findServer e (fsm t) (Addr sd) = (ind, True)"
    and open_: "\<not> serversClosed t"
    and cmp: "\<not> CompareToIncoming
                 (TopologyVersion (Servers (fsm_Topology (fsm t)) ! ind)) (TopologyVersion sd) > 0"
  shows "\<exists>t'. Topology_apply e sd t = Returns (snd (snd (fsm_apply e (fsm t) sd)), t')
           \<and> fsm t' = fst (fsm_apply e (fsm t) sd)
           \<and> desc t' = fst (snd (fsm_apply e (fsm t) sd))
           \<and> subscribers t' = subscribers t
           \<and> publish_loop (desc t') (subscribers t) (chans t) = Returns (chans t')
           \<and> (\<forall>(i, r) \<in> set (subscribers t'). buf (chans t' ! r) = [desc t'])
           \<and> subscribers_ok t'"
proof -
  obtain f' current d' where fa: "fsm_apply e (fsm t) sd = (f', current, d')"
    by (cases "fsm_apply e (fsm t) sd")
  from apply_accepted_run [OF fs open_ cmp fa] obtain t6 where t6:
    "fsm t6 = f'" "desc t6 = current" "subscribers t6 = subscribers t" "chans t6 = chans t"
    "Topology_apply e sd t =
       (case publish_loop current (subscribers t) (chans t) of
          Returns h \<Rightarrow> Returns (d', t6\<lparr>chans := h\<rparr>)
        | Blocks \<Rightarrow> Blocks
        | Panics \<Rightarrow> Panics)"
    by blast
  from publish_ok [OF ok t6(3) t6(4) t6(2)] obtain h where h:
    "publish_loop current (subscribers t6) (chans t6) = Returns h"
    "subscribers_ok (t6\<lparr>chans := h\<rparr>)"
    "\<forall>(i, r) \<in> set (subscribers t6). buf (h ! r) = [current]"
    by blast
  have h1: "publish_loop current (subscribers t) (chans t) = Returns h"
    using h(1) t6(3) t6(4) by simp
  have "Topology_apply e sd t = Returns (d', t6\<lparr>chans := h\<rparr>)"
    using t6(5) h1 by simp
  then show ?thesis
    using fa t6 h h1 by auto
qed

lemma processSRVResults_changed:
  assumes ok: "subscribers_ok t"
    and open_: "\<not> serversClosed t"
    and ch: "\<not> (Added_hosts (diffHostList (fsm_Topology (fsm t)) hosts) = []
              \<and> Removed_hosts (diffHostList (fsm_Topology (fsm t)) hosts) = [])"
  shows "\<exists>t'. processSRVResults e hosts t = Returns (True, t')
           \<and> fsm t' = fsm (add_hosts e
                 (added_order e
                    (remove_hosts e (Removed_hosts (diffHostList (fsm_Topology (fsm t)) hosts)) t)
                    (Added_hosts (diffHostList (fsm_Topology (fsm t)) hosts)))
                 (remove_hosts e (Removed_hosts (diffHostList (fsm_Topology (fsm t)) hosts)) t))
           \<and> servers t' = servers (add_hosts e
                 (added_order e
                    (remove_hosts e (Removed_hosts (diffHostList (fsm_Topology (fsm t)) hosts)) t)
                    (Added_hosts (diffHostList (fsm_Topology (fsm t)) hosts)))
                 (remove_hosts e (Removed_hosts (diffHostList (fsm_Topology (fsm t)) hosts)) t))
           \<and> cfg t' = cfg t
           \<and> desc t' = \<lparr>TopoKind = TopoKind (fsm_Topology (fsm t')),
                         Servers = Servers (fsm_Topology (fsm t')),
                         SetName = [],
                         SessionTimeoutMinutes = SessionTimeoutMinutes (fsm_Topology (fsm t')),
                         CompatibilityErr = None\<rparr>
           \<and> subscribers t' = subscribers t
           \<and> publish_loop (desc t') (subscribers t) (chans t) = Returns (chans t')
           \<and> (\<forall>(i, r) \<in> set (subscribers t'). buf (chans t' ! r) = [desc t'])
           \<and> subscribers_ok t'"
proof -
  define diff where "diff = diffHostList (fsm_Topology (fsm t)) hosts"
  define t2 where "t2 = add_hosts e (added_order e (remove_hosts e (Removed_hosts diff) t) (Added_hosts diff))
                          (remove_hosts e (Removed_hosts diff) t)"
  define newDesc where "newDesc = \<lparr>TopoKind = TopoKind (fsm_Topology (fsm t2)),
                              Servers = Servers (fsm_Topology (fsm t2)),
                              SetName = [],
                              SessionTimeoutMinutes = SessionTimeoutMinutes (fsm_Topology (fsm t2)),
                              CompatibilityErr = None\<rparr>"
  define t4 where "t4 = (if \<not> Topology_Equal (fsm_Topology (fsm t)) newDesc
                         then publishTopologyDescriptionChangedEvent (fsm_Topology (fsm t)) newDesc
                                (t2\<lparr>desc := newDesc\<rparr>)
                         else t2\<lparr>desc := newDesc\<rparr>)"
  have frame: "subscribers t4 = subscribers t" "chans t4 = chans t" "desc t4 = newDesc"
    by (simp_all add: t4_def t2_def add_hosts_frame remove_hosts_frame
          publishTopologyDescriptionChangedEvent_def)
  have frame': "cfg t4 = cfg t" "servers t4 = servers t2" "fsm t4 = fsm t2"
    by (simp_all add: t4_def t2_def add_hosts_frame remove_hosts_frame
          publishTopologyDescriptionChangedEvent_def)
  from publish_ok [OF ok frame] obtain h where h:
    "publish_loop newDesc (subscribers t4) (chans t4) = Returns h"
    "subscribers_ok (t4\<lparr>chans := h\<rparr>)"
    "\<forall>(i, r) \<in> set (subscribers t4). buf (h ! r) = [newDesc]"
    by blast
  have h1: "publish_loop newDesc (subscribers t) (chans t) = Returns h"
    using h(1) frame by simp
  have run: "processSRVResults e hosts t = Returns (True, t4\<lparr>chans := h\<rparr>)"
    using open_ ch h1
    unfolding processSRVResults_def t4_def newDesc_def t2_def diff_def
    by (auto simp: Let_def add_hosts_frame remove_hosts_frame
          publishTopologyDescriptionChangedEvent_def)
  have d: "desc (t4\<lparr>chans := h\<rparr>) =
       \<lparr>TopoKind = TopoKind (fsm_Topology (fsm (t4\<lparr>chans := h\<rparr>))),
        Servers = Servers (fsm_Topology (fsm (t4\<lparr>chans := h\<rparr>))),
        SetName = [],
        SessionTimeoutMinutes = SessionTimeoutMinutes (fsm_Topology (fsm (t4\<lparr>chans := h\<rparr>))),
        CompatibilityErr = None\<rparr>"
    using frame frame' by (simp add: newDesc_def)
  show ?thesis
    apply (rule exI [of _ "t4\<lparr>chans := h\<rparr>"])
    using run d h(2) h(3) h1 frame frame'
    by (simp add: t2_def diff_def)
qed

lemma length_update_le: "length (AList.update k v al) \<le> Suc (length al)"
  by (induction al) auto

lemma addServer_servers:
  "length (servers (snd (addServer e a t))) \<le> Suc (length (servers t))"
  "fst ` set (servers (snd (addServer e a t))) \<subseteq> insert a (fst ` set (servers t))"
  by (auto simp: addServer_def length_update_le dom_update split: option.splits sum.splits)

lemma remove_hosts_servers:
  "length (servers (remove_hosts e rs t)) \<le> length (servers t)
   \<and> fst ` set (servers (remove_hosts e rs t)) \<subseteq> fst ` set (servers t)"
proof (induction rs arbitrary: t)
  case Nil
  then show ?case by simp
next
  case (Cons r rs)
  show ?case
  proof (cases "map_of (servers t) (Canonicalize e r)")
    case None
    then show ?thesis using Cons.IH [of t] by (simp add: Let_def)
  next
    case (Some s)
    define t1 where "t1 = publishServerClosedEvent (address s)
                  ((disconnectServer s t)
                     \<lparr>servers := AList.delete (Canonicalize e r) (servers t),
                      fsm := fsm_removeServerByAddr e (fsm t) (Canonicalize e r)\<rparr>)"
    have s1: "servers t1 = AList.delete (Canonicalize e r) (servers t)"
      by (simp add: t1_def publishServerClosedEvent_def disconnectServer_def)
    have l: "length (servers t1) \<le> length (servers t)"
      and d: "fst ` set (servers t1) \<subseteq> fst ` set (servers t)"
      using length_delete_le [of "Canonicalize e r" "servers t"]
        dom_delete_subset [of "Canonicalize e r" "servers t"]
      by (simp_all add: s1)
    have eq: "remove_hosts e (r # rs) t = remove_hosts e rs t1"
      using Some by (simp add: Let_def t1_def)
    from Cons.IH [of t1] have "length (servers (remove_hosts e rs t1)) \<le> length (servers t)"
      and "fst ` set (servers (remove_hosts e rs t1)) \<subseteq> fst ` set (servers t)"
      using l d by (simp, blast)
    then show ?thesis
      unfolding eq by simp
  qed
qed

lemma add_hosts_cap:
  assumes "0 < srvMaxHosts (cfg t)"
  shows "int (length (servers (add_hosts e as t)))
           \<le> max (srvMaxHosts (cfg t)) (int (length (servers t)))"
  using assms
proof (induction as arbitrary: t)
  case Nil
  then show ?case by simp
next
  case (Cons a as)
  show ?case
  proof (cases "int (length (servers t)) \<ge> srvMaxHosts (cfg t)")
    case True
    with Cons.prems show ?thesis by simp
  next
    case False
    define t1 where "t1 = snd (addServer e (Canonicalize e a) t)"
    define t2 where "t2 = t1\<lparr>fsm := fsm_addServer e (fsm t1) (Canonicalize e a)\<rparr>"
    have c: "cfg t2 = cfg t" and l: "length (servers t2) \<le> Suc (length (servers t))"
      using addServer_servers(1) [of e "Canonicalize e a" t]
      by (simp_all add: t2_def t1_def addServer_frame)
    have step: "add_hosts e (a # as) t = add_hosts e as t2"
      using False by (simp add: Let_def t2_def t1_def)
    have "int (length (servers (add_hosts e as t2)))
            \<le> max (srvMaxHosts (cfg t2)) (int (length (servers t2)))"
      using Cons.IH [of t2] Cons.prems c by simp
    also have "\<dots> \<le> srvMaxHosts (cfg t)"
      using False l c by simp
    finally show ?thesis using step by simp
  qed
qed

lemma add_hosts_dom:
  "fst ` set (servers (add_hosts e as t)) \<subseteq> fst ` set (servers t) \<union> Canonicalize e ` set as"
proof (induction as arbitrary: t)
  case Nil
  then show ?case by simp
next
  case (Cons a as)
  define t1 where "t1 = snd (addServer e (Canonicalize e a) t)"
  define t2 where "t2 = t1\<lparr>fsm := fsm_addServer e (fsm t1) (Canonicalize e a)\<rparr>"
  have d: "fst ` set (servers t2) \<subseteq> insert (Canonicalize e a) (fst ` set (servers t))"
    using addServer_servers(2) [of e "Canonicalize e a" t] by (simp add: t2_def t1_def)
  have "add_hosts e (a # as) t = t \<or> add_hosts e (a # as) t = add_hosts e as t2"
    by (simp add: Let_def t2_def t1_def)
  then show ?case
  proof
    assume "add_hosts e (a # as) t = t"
    then show ?thesis by auto
  next
    assume "add_hosts e (a # as) t = add_hosts e as t2"
    then show ?thesis using Cons.IH [of t2] d by auto
  qed
qed

lemma swap_mset: "i < length xs \<Longrightarrow> j < length xs \<Longrightarrow> mset (swap i j xs) = mset xs"
  by (simp add: swap_def mset_swap)

lemma Shuffle_loop_mset:
  "i < length xs \<Longrightarrow> mset (Shuffle_loop r i xs) = mset xs"
proof (induction i arbitrary: xs)
  case 0
  then show ?case by simp
next
  case (Suc i)
  have j: "r (Suc i) mod Suc (Suc i) < length xs"
    using Suc.prems by (meson less_trans_Suc mod_less_divisor not_less_eq zero_less_Suc less_Suc_eq_le le_less_trans)
  have "length (swap (Suc i) (r (Suc i) mod Suc (Suc i)) xs) = length xs"
    by (simp add: swap_def)
  with Suc show ?case
    by (simp add: swap_mset j)
qed

lemma Shuffle_mset: "mset (Shuffle r xs) = mset xs"
  by (cases xs) (simp_all add: Shuffle_def Shuffle_loop_mset)

lemma added_order_mset: "mset (added_order e t added) = mset added"
  by (simp add: added_order_def Shuffle_mset)

lemma added_order_set: "set (added_order e t added) = set added"
  using added_order_mset [of e t added] by (metis set_mset_mset)

lemma diffHostList_Added: "set (Added_hosts (diffHostList td hosts)) \<subseteq> set hosts"
  by (simp add: diffHostList_def)

lemma length_update_new:
  "k \<notin> fst ` set al \<Longrightarrow> length (AList.update k v al) = Suc (length al)"
  by (induction al) auto

lemma add_hosts_exact:
  assumes "\<forall>a. \<exists>s. ConnectServer e a = Inr s"
    and "0 < srvMaxHosts (cfg t)"
    and "distinct (map (Canonicalize e) as)"
    and "Canonicalize e ` set as \<inter> fst ` set (servers t) = {}"
    and "int (length (servers t)) \<le> srvMaxHosts (cfg t)"
  shows "int (length (servers (add_hosts e as t)))
           = min (srvMaxHosts (cfg t)) (int (length (servers t)) + int (length as))"
  using assms
proof (induction as arbitrary: t)
  case Nil
  then show ?case by simp
next
  case (Cons a as)
  show ?case
  proof (cases "int (length (servers t)) \<ge> srvMaxHosts (cfg t)")
    case True
    with Cons.prems show ?thesis by simp
  next
    case False
    define addr where "addr = Canonicalize e a"
    obtain s where s: "ConnectServer e addr = Inr s"
      using Cons.prems(1) by blast
    have new: "addr \<notin> fst ` set (servers t)"
      using Cons.prems(4) by (auto simp: addr_def)
    then have none: "map_of (servers t) addr = None"
      by (simp add: map_of_eq_None_iff)
    define t2 where "t2 = (t\<lparr>servers := AList.update addr s (servers t)\<rparr>)
                            \<lparr>fsm := fsm_addServer e (fsm t) addr\<rparr>"
    have step: "add_hosts e (a # as) t = add_hosts e as t2"
      using False none s by (simp add: Let_def addServer_def addr_def [symmetric] t2_def)
    have c2: "cfg t2 = cfg t"
      and l2: "length (servers t2) = Suc (length (servers t))"
      and d2: "fst ` set (servers t2) = insert addr (fst ` set (servers t))"
      using new by (simp_all add: t2_def length_update_new dom_update)
    have p3: "distinct (map (Canonicalize e) as)"
      and fresh: "addr \<notin> Canonicalize e ` set as"
      using Cons.prems(3) by (auto simp: addr_def)
    have p4: "Canonicalize e ` set as \<inter> fst ` set (servers t2) = {}"
      using Cons.prems(4) fresh by (auto simp: d2)
    have p5: "int (length (servers t2)) \<le> srvMaxHosts (cfg t2)"
      using False by (simp add: l2 c2)
    have "int (length (servers (add_hosts e as t2)))
            = min (srvMaxHosts (cfg t2)) (int (length (servers t2)) + int (length as))"
      using Cons.IH [of t2] Cons.prems(1) Cons.prems(2) p3 p4 p5 by (simp add: c2)
    then show ?thesis
      using step by (simp add: c2 l2)
  qed
qed

lemma added_order_length: "length (added_order e t added) = length added"
  using added_order_mset [of e t added] by (metis size_mset)

lemma added_order_distinct:
  "distinct (map f (added_order e t added)) = distinct (map f added)"
proof -
  have "mset (map f (added_order e t added)) = mset (map f added)"
    by (simp add: added_order_mset)
  then show ?thesis
    by (rule mset_eq_imp_distinct_iff)
qed

subsection \<open>Subscribers\<close>

text \<open>
  C4. In a topology whose subscribers are in order (which \<open>New\<close> establishes and
  \<open>Subscribe\<close>, \<open>Unsubscribe\<close>, \<open>Disconnect\<close>, \<open>apply\<close>, \<open>processSRVResults\<close> and a
  subscriber's receive maintain): \<open>Subscribe\<close> returns, and a subscription it returns
  has a registered channel of capacity 1 that holds exactly the current description;
  the publishing loop never blocks and leaves exactly the new description in the
  channel of every subscriber, a pending older one being drained first. \<open>apply\<close>
  returns; whenever it accepts a description (servers open, address known, stored
  version not dominating) it stores the topology the state machine returns, the
  channels afterwards are exactly what the publishing loop makes of the channels
  before with that topology, and every subscriber's channel holds that topology and
  nothing else. \<open>processSRVResults\<close> returns; whenever the host list differs from the
  known servers (and the servers are open) it stores the description built from the
  state machine after the removals and additions, the channels afterwards are exactly
  what the publishing loop makes of the channels before with that description, and
  every subscriber's channel holds that description and nothing else.
\<close>

theorem subscriber_channel_contract:
  assumes "subscribers_ok t"
  shows "(\<exists>res. Topology_Subscribe t = Returns res)
       \<and> (\<forall>sub t'. Topology_Subscribe t = Returns (Inr sub, t') \<longrightarrow>
            lookup_chan (chans t') (Updates sub) = Some \<lparr>cap = 1, buf = [desc t], closed = False\<rparr>
            \<and> map_of (subscribers t') (ID sub) = Some (Updates sub)
            \<and> subscribers_ok t')
       \<and> (\<exists>h. publish_loop d (subscribers t) (chans t) = Returns h
              \<and> (\<forall>(i, r) \<in> set (subscribers t). buf (h ! r) = [d]))
       \<and> (\<exists>d' t'. Topology_apply e sd t = Returns (d', t') \<and> subscribers_ok t')
       \<and> (\<forall>ind. \<not> serversClosed t \<and> findServer e (fsm t) (Addr sd) = (ind, True)
              \<and> \<not> 0 < CompareToIncoming
                         (TopologyVersion (Servers (fsm_Topology (fsm t)) ! ind)) (TopologyVersion sd)
            \<longrightarrow>
            (\<exists>t'. Topology_apply e sd t = Returns (snd (snd (fsm_apply e (fsm t) sd)), t')
               \<and> desc t' = fst (snd (fsm_apply e (fsm t) sd))
               \<and> subscribers t' = subscribers t
               \<and> publish_loop (desc t') (subscribers t) (chans t) = Returns (chans t')
               \<and> (\<forall>(i, r) \<in> set (subscribers t'). buf (chans t' ! r) = [desc t'])))
       \<and> (\<exists>c t'. processSRVResults e hosts t = Returns (c, t') \<and> subscribers_ok t')
       \<and> (\<not> serversClosed t
            \<and> \<not> (Added_hosts (diffHostList (fsm_Topology (fsm t)) hosts) = []
                  \<and> Removed_hosts (diffHostList (fsm_Topology (fsm t)) hosts) = [])
            \<longrightarrow>
            (\<exists>t'. processSRVResults e hosts t = Returns (True, t')
               \<and> fsm t' = fsm (add_hosts e
                     (added_order e
                        (remove_hosts e (Removed_hosts (diffHostList (fsm_Topology (fsm t)) hosts)) t)
                        (Added_hosts (diffHostList (fsm_Topology (fsm t)) hosts)))
                     (remove_hosts e (Removed_hosts (diffHostList (fsm_Topology (fsm t)) hosts)) t))
               \<and> desc t' = \<lparr>TopoKind = TopoKind (fsm_Topology (fsm t')),
                             Servers = Servers (fsm_Topology (fsm t')),
                             SetName = [],
                             SessionTimeoutMinutes = SessionTimeoutMinutes (fsm_Topology (fsm t')),
                             CompatibilityErr = None\<rparr>
               \<and> subscribers t' = subscribers t
               \<and> publish_loop (desc t') (subscribers t) (chans t) = Returns (chans t')
               \<and> (\<forall>(i, r) \<in> set (subscribers t'). buf (chans t' ! r) = [desc t'])))"
proof -
  have pub: "\<exists>h. publish_loop d (subscribers t) (chans t) = Returns h
              \<and> (\<forall>(i, r) \<in> set (subscribers t). buf (h ! r) = [d])"
    using publish_ok [OF assms, of "t\<lparr>desc := d\<rparr>" d] by auto
  have app: "\<exists>d' t'. Topology_apply e sd t = Returns (d', t') \<and> subscribers_ok t'"
    using apply_publishes [OF assms, of e sd] by blast
  have srv: "\<exists>c t'. processSRVResults e hosts t = Returns (c, t') \<and> subscribers_ok t'"
    using processSRVResults_publishes [OF assms, of e hosts] by blast
  have app': "\<forall>ind. \<not> serversClosed t \<and> findServer e (fsm t) (Addr sd) = (ind, True)
              \<and> \<not> 0 < CompareToIncoming
                         (TopologyVersion (Servers (fsm_Topology (fsm t)) ! ind)) (TopologyVersion sd)
            \<longrightarrow>
            (\<exists>t'. Topology_apply e sd t = Returns (snd (snd (fsm_apply e (fsm t) sd)), t')
               \<and> desc t' = fst (snd (fsm_apply e (fsm t) sd))
               \<and> subscribers t' = subscribers t
               \<and> publish_loop (desc t') (subscribers t) (chans t) = Returns (chans t')
               \<and> (\<forall>(i, r) \<in> set (subscribers t'). buf (chans t' ! r) = [desc t']))"
  proof (intro allI impI)
    fix ind
    assume a: "\<not> serversClosed t \<and> findServer e (fsm t) (Addr sd) = (ind, True)
              \<and> \<not> 0 < CompareToIncoming
                         (TopologyVersion (Servers (fsm_Topology (fsm t)) ! ind)) (TopologyVersion sd)"
    from apply_accepted_publishes [OF assms, of e sd ind] a
    show "\<exists>t'. Topology_apply e sd t = Returns (snd (snd (fsm_apply e (fsm t) sd)), t')
               \<and> desc t' = fst (snd (fsm_apply e (fsm t) sd))
               \<and> subscribers t' = subscribers t
               \<and> publish_loop (desc t') (subscribers t) (chans t) = Returns (chans t')
               \<and> (\<forall>(i, r) \<in> set (subscribers t'). buf (chans t' ! r) = [desc t'])"
      by blast
  qed
  have srv': "\<not> serversClosed t
            \<and> \<not> (Added_hosts (diffHostList (fsm_Topology (fsm t)) hosts) = []
                  \<and> Removed_hosts (diffHostList (fsm_Topology (fsm t)) hosts) = [])
            \<longrightarrow>
            (\<exists>t'. processSRVResults e hosts t = Returns (True, t')
               \<and> fsm t' = fsm (add_hosts e
                     (added_order e
                        (remove_hosts e (Removed_hosts (diffHostList (fsm_Topology (fsm t)) hosts)) t)
                        (Added_hosts (diffHostList (fsm_Topology (fsm t)) hosts)))
                     (remove_hosts e (Removed_hosts (diffHostList (fsm_Topology (fsm t)) hosts)) t))
               \<and> desc t' = \<lparr>TopoKind = TopoKind (fsm_Topology (fsm t')),
                             Servers = Servers (fsm_Topology (fsm t')),
                             SetName = [],
                             SessionTimeoutMinutes = SessionTimeoutMinutes (fsm_Topology (fsm t')),
                             CompatibilityErr = None\<rparr>
               \<and> subscribers t' = subscribers t
               \<and> publish_loop (desc t') (subscribers t) (chans t) = Returns (chans t')
               \<and> (\<forall>(i, r) \<in> set (subscribers t'). buf (chans t' ! r) = [desc t']))"
  proof (intro impI)
    assume a: "\<not> serversClosed t
            \<and> \<not> (Added_hosts (diffHostList (fsm_Topology (fsm t)) hosts) = []
                  \<and> Removed_hosts (diffHostList (fsm_Topology (fsm t)) hosts) = [])"
    then have a1: "\<not> serversClosed t"
      and a2: "\<not> (Added_hosts (diffHostList (fsm_Topology (fsm t)) hosts) = []
                  \<and> Removed_hosts (diffHostList (fsm_Topology (fsm t)) hosts) = [])"
      by simp_all
    from processSRVResults_changed [OF assms a1 a2, of e]
    show "\<exists>t'. processSRVResults e hosts t = Returns (True, t')
               \<and> fsm t' = fsm (add_hosts e
                     (added_order e
                        (remove_hosts e (Removed_hosts (diffHostList (fsm_Topology (fsm t)) hosts)) t)
                        (Added_hosts (diffHostList (fsm_Topology (fsm t)) hosts)))
                     (remove_hosts e (Removed_hosts (diffHostList (fsm_Topology (fsm t)) hosts)) t))
               \<and> desc t' = \<lparr>TopoKind = TopoKind (fsm_Topology (fsm t')),
                             Servers = Servers (fsm_Topology (fsm t')),
                             SetName = [],
                             SessionTimeoutMinutes = SessionTimeoutMinutes (fsm_Topology (fsm t')),
                             CompatibilityErr = None\<rparr>
               \<and> subscribers t' = subscribers t
               \<and> publish_loop (desc t') (subscribers t) (chans t) = Returns (chans t')
               \<and> (\<forall>(i, r) \<in> set (subscribers t'). buf (chans t' ! r) = [desc t'])"
      by blast
  qed
  from Subscribe_ok [OF assms] have sub:
    "(\<exists>res. Topology_Subscribe t = Returns res)
       \<and> (\<forall>sub t'. Topology_Subscribe t = Returns (Inr sub, t') \<longrightarrow>
            lookup_chan (chans t') (Updates sub) = Some \<lparr>cap = 1, buf = [desc t], closed = False\<rparr>
            \<and> map_of (subscribers t') (ID sub) = Some (Updates sub)
            \<and> subscribers_ok t')"
    by blast
  show ?thesis
    by (intro conjI sub [THEN conjunct1] sub [THEN conjunct2] pub app app' srv srv')
qed

theorem subscriber_channel_contract_witness:
  "subscribers_ok example_topology
   \<and> buf (chans example_topology ! 0) = [example_description]
   \<and> (\<exists>sub t'. Topology_Subscribe example_topology = Returns (Inr sub, t')
         \<and> lookup_chan (chans t') (Updates sub)
             = Some \<lparr>cap = 1, buf = [example_description], closed = False\<rparr>
         \<and> subscribers_ok t')
   \<and> (\<exists>h. publish_loop Topology_zero (subscribers example_topology) (chans example_topology)
             = Returns h
          \<and> buf (h ! 0) = [Topology_zero])
   \<and> (\<exists>t'. Topology_apply example_env
          \<lparr>Addr = ''h1:27017'', Kind = Mongos,
           TopologyVersion = Some \<lparr>ProcessID = [1], Counter = 7\<rparr>\<rparr> example_topology
          = Returns (\<lparr>Addr = ''h1:27017'', Kind = Mongos,
                      TopologyVersion = Some \<lparr>ProcessID = [1], Counter = 7\<rparr>\<rparr>, t')
        \<and> buf (chans t' ! 0) =
            [\<lparr>TopoKind = Sharded,
              Servers = [\<lparr>Addr = ''h1:27017'', Kind = Mongos,
                          TopologyVersion = Some \<lparr>ProcessID = [1], Counter = 7\<rparr>\<rparr>,
                         \<lparr>Addr = ''h2:27017'', Kind = Mongos, TopologyVersion = None\<rparr>],
              SetName = [], SessionTimeoutMinutes = 30, CompatibilityErr = None\<rparr>])
   \<and> (\<exists>t'. processSRVResults example_env [''h1:27017'', ''h3:27017''] example_topology
          = Returns (True, t')
        \<and> buf (chans t' ! 0) =
            [\<lparr>TopoKind = Sharded,
              Servers = [\<lparr>Addr = ''h1:27017'', Kind = Mongos,
                          TopologyVersion = Some \<lparr>ProcessID = [1], Counter = 5\<rparr>\<rparr>,
                         \<lparr>Addr = ''h3:27017'', Kind = Unknown, TopologyVersion = None\<rparr>],
              SetName = [], SessionTimeoutMinutes = 30, CompatibilityErr = None\<rparr>])"
proof -
  let ?sd = "\<lparr>Addr = ''h1:27017'', Kind = Mongos,
           TopologyVersion = Some \<lparr>ProcessID = [1], Counter = 7\<rparr>\<rparr>"
  let ?hosts = "[''h1:27017'', ''h3:27017'']"
  have sub: "Topology_Subscribe example_topology =
      Returns (Inr \<lparr>Updates = 1, ID = 1\<rparr>,
               example_topology
                 \<lparr>chans := chans example_topology
                     @ [\<lparr>cap = 1, buf = [example_description], closed = False\<rparr>],
                  subscribers := [(0, 0), (1, 1)], currentSubscriberID := 2\<rparr>)"
    by (simp add: Topology_Subscribe_def example_topology_def chan_send_def make_chan_def Let_def)
  have d: "desc example_topology = example_description"
    and s: "subscribers example_topology = [(0, 0)]"
    and c: "buf (chans example_topology ! 0) = [example_description]"
    and op: "\<not> serversClosed example_topology"
    by (simp_all add: example_topology_def)
  have cmp: "\<not> 0 < CompareToIncoming
       (TopologyVersion (Servers (fsm_Topology (fsm example_topology)) ! 0)) (TopologyVersion ?sd)"
    by (simp add: CompareToIncoming_def example_topology_def example_description_def)
  have fa: "fsm_apply example_env (fsm example_topology) ?sd =
      ((fsm example_topology)
         \<lparr>fsm_Topology := \<lparr>TopoKind = Sharded,
              Servers = [?sd, \<lparr>Addr = ''h2:27017'', Kind = Mongos, TopologyVersion = None\<rparr>],
              SetName = [], SessionTimeoutMinutes = 30, CompatibilityErr = None\<rparr>\<rparr>,
       \<lparr>TopoKind = Sharded,
        Servers = [?sd, \<lparr>Addr = ''h2:27017'', Kind = Mongos, TopologyVersion = None\<rparr>],
        SetName = [], SessionTimeoutMinutes = 30, CompatibilityErr = None\<rparr>,
       ?sd)"
    by (simp add: example_env_def example_topology_def example_description_def Let_def)
  have diff: "diffHostList (fsm_Topology (fsm example_topology)) ?hosts
     = \<lparr>Added_hosts = [''h3:27017''], Removed_hosts = [''h2:27017'']\<rparr>"
    by (simp add: diffHostList_def example_topology_def example_description_def)
  define t1 where "t1 = remove_hosts example_env [''h2:27017''] example_topology"
  have t1: "servers t1 = [(''h1:27017'', \<lparr>address = ''h1:27017''\<rparr>)]"
    "cfg t1 = cfg example_topology"
    "fsm t1 = (fsm example_topology)
        \<lparr>fsm_Topology := example_description
           \<lparr>Servers := [\<lparr>Addr = ''h1:27017'', Kind = Mongos,
                          TopologyVersion = Some \<lparr>ProcessID = [1], Counter = 5\<rparr>\<rparr>]\<rparr>\<rparr>"
    by (simp_all add: t1_def example_env_def example_topology_def example_description_def
          publishServerClosedEvent_def disconnectServer_def AList.delete_eq Let_def)
  have ord: "added_order example_env t1 [''h3:27017''] = [''h3:27017'']"
    by (simp add: added_order_def t1 example_topology_def)
  have f2: "fsm (add_hosts example_env [''h3:27017''] t1) =
     (fsm example_topology)
        \<lparr>fsm_Topology := example_description
           \<lparr>Servers := [\<lparr>Addr = ''h1:27017'', Kind = Mongos,
                          TopologyVersion = Some \<lparr>ProcessID = [1], Counter = 5\<rparr>\<rparr>,
                        \<lparr>Addr = ''h3:27017'', Kind = Unknown, TopologyVersion = None\<rparr>]\<rparr>\<rparr>"
    by (simp add: t1 addServer_frame Let_def, simp add: example_env_def example_topology_def)
  note inst = subscriber_channel_contract [OF example_topology_ok,
        of Topology_zero example_env "?sd" "?hosts"]
  note c2 = inst [THEN conjunct2, THEN conjunct1]
  note c3 = inst [THEN conjunct2, THEN conjunct2, THEN conjunct1]
  note c5 = inst [THEN conjunct2, THEN conjunct2, THEN conjunct2, THEN conjunct2, THEN conjunct1]
  note c7 = inst [THEN conjunct2, THEN conjunct2, THEN conjunct2, THEN conjunct2, THEN conjunct2,
                 THEN conjunct2]
  have S: "\<exists>sub t'. Topology_Subscribe example_topology = Returns (Inr sub, t')
         \<and> lookup_chan (chans t') (Updates sub)
             = Some \<lparr>cap = 1, buf = [example_description], closed = False\<rparr>
         \<and> subscribers_ok t'"
    using c2 [rule_format, OF sub] sub d by auto
  have P: "\<exists>h. publish_loop Topology_zero (subscribers example_topology) (chans example_topology)
             = Returns h
          \<and> buf (h ! 0) = [Topology_zero]"
    using c3 by (auto simp: s)
  have fs: "findServer example_env (fsm example_topology) (Addr ?sd) = (0, True)"
    using example_findServer by simp
  from c5 [rule_format, of 0] op fs cmp
  obtain t' where a: "Topology_apply example_env ?sd example_topology
        = Returns (snd (snd (fsm_apply example_env (fsm example_topology) ?sd)), t')"
    "desc t' = fst (snd (fsm_apply example_env (fsm example_topology) ?sd))"
    "subscribers t' = subscribers example_topology"
    "\<forall>(i, r) \<in> set (subscribers t'). buf (chans t' ! r) = [desc t']"
    by blast
  have A: "\<exists>t'. Topology_apply example_env ?sd example_topology = Returns (?sd, t')
        \<and> buf (chans t' ! 0) =
            [\<lparr>TopoKind = Sharded,
              Servers = [?sd, \<lparr>Addr = ''h2:27017'', Kind = Mongos, TopologyVersion = None\<rparr>],
              SetName = [], SessionTimeoutMinutes = 30, CompatibilityErr = None\<rparr>]"
    using a by (auto simp: fa s)
  from c7 op diff
  obtain t'' where r: "processSRVResults example_env ?hosts example_topology = Returns (True, t'')"
    "fsm t'' = fsm (add_hosts example_env (added_order example_env t1 [''h3:27017'']) t1)"
    "desc t'' = \<lparr>TopoKind = TopoKind (fsm_Topology (fsm t'')),
                             Servers = Servers (fsm_Topology (fsm t'')),
                             SetName = [],
                             SessionTimeoutMinutes = SessionTimeoutMinutes (fsm_Topology (fsm t'')),
                             CompatibilityErr = None\<rparr>"
    "subscribers t'' = subscribers example_topology"
    "\<forall>(i, r) \<in> set (subscribers t''). buf (chans t'' ! r) = [desc t'']"
    unfolding t1_def by auto
  have dd: "desc t'' = \<lparr>TopoKind = Sharded,
              Servers = [\<lparr>Addr = ''h1:27017'', Kind = Mongos,
                          TopologyVersion = Some \<lparr>ProcessID = [1], Counter = 5\<rparr>\<rparr>,
                         \<lparr>Addr = ''h3:27017'', Kind = Unknown, TopologyVersion = None\<rparr>],
              SetName = [], SessionTimeoutMinutes = 30, CompatibilityErr = None\<rparr>"
    using r(3) unfolding r(2) [unfolded ord f2] by (simp add: example_description_def)
  have R: "\<exists>t'. processSRVResults example_env ?hosts example_topology = Returns (True, t')
        \<and> buf (chans t' ! 0) =
            [\<lparr>TopoKind = Sharded,
              Servers = [\<lparr>Addr = ''h1:27017'', Kind = Mongos,
                          TopologyVersion = Some \<lparr>ProcessID = [1], Counter = 5\<rparr>\<rparr>,
                         \<lparr>Addr = ''h3:27017'', Kind = Unknown, TopologyVersion = None\<rparr>],
              SetName = [], SessionTimeoutMinutes = 30, CompatibilityErr = None\<rparr>]"
    using r(1) r(4) r(5) dd by (auto simp: s)
  show ?thesis
    by (intro conjI example_topology_ok c S P A R)
qed

subsection \<open>Disconnect\<close>

text \<open>
  C6, as stated, on the example topology: the first \<open>Disconnect\<close> completes and leaves
  the state \<open>disconnected\<close>; the second call returns \<open>ErrTopologyClosed\<close>, not nil.
\<close>

theorem disconnect_twice_counterexample:
  "Topology_Disconnect example_topology = Returns (None, example_disconnected)
   \<and> connectionstate example_disconnected = disconnected
   \<and> Topology_Disconnect example_disconnected = Returns (Some ErrTopologyClosed, example_disconnected)"
  by (simp add: Topology_Disconnect_def example_topology_def example_disconnected_def
        lookup_chan_def chan_close_def publishServerClosedEvent_def disconnectServer_def
        publishTopologyClosedEvent_def Let_def)

text \<open>
  C6, amended. \<open>Disconnect\<close> on a topology that is not connected returns
  \<open>ErrTopologyClosed\<close> and changes nothing; in particular, after a \<open>Disconnect\<close> that
  completed, the topology is disconnected and every further \<open>Disconnect\<close> returns
  \<open>ErrTopologyClosed\<close> and leaves it disconnected.
\<close>

theorem disconnect_when_not_connected:
  "(connectionstate t \<noteq> connected \<longrightarrow>
      Topology_Disconnect t = Returns (Some ErrTopologyClosed, t))
   \<and> (\<forall>t1. Topology_Disconnect t = Returns (None, t1) \<longrightarrow>
         connectionstate t1 = disconnected
         \<and> Topology_Disconnect t1 = Returns (Some ErrTopologyClosed, t1))"
  by (auto simp: Topology_Disconnect_def publishTopologyClosedEvent_def Let_def
           split: if_splits outcome.splits)

theorem disconnect_when_not_connected_witness:
  "Topology_Disconnect example_disconnected = Returns (Some ErrTopologyClosed, example_disconnected)
   \<and> connectionstate example_disconnected = disconnected"
  using disconnect_when_not_connected [of example_disconnected]
  by (simp add: example_disconnected_def)

subsection \<open>Topology versions in apply\<close>

text \<open>
  C1, as stated, on the example topology once its servers are closed: the stored
  description of \<open>h1\<close> has counter 5, the incoming one has counter 3 and the same
  process id, and \<open>apply\<close> returns the incoming description, not the stored one.
\<close>

theorem apply_topology_version_counterexample:
  "findServer example_env (fsm (example_topology\<lparr>serversClosed := True\<rparr>)) ''h1:27017'' = (0, True)
   \<and> Servers (fsm_Topology (fsm (example_topology\<lparr>serversClosed := True\<rparr>))) ! 0 =
       \<lparr>Addr = ''h1:27017'', Kind = Mongos,
        TopologyVersion = Some \<lparr>ProcessID = [1], Counter = 5\<rparr>\<rparr>
   \<and> Topology_apply example_env
       \<lparr>Addr = ''h1:27017'', Kind = Mongos,
        TopologyVersion = Some \<lparr>ProcessID = [1], Counter = 3\<rparr>\<rparr>
       (example_topology\<lparr>serversClosed := True\<rparr>)
     = Returns (\<lparr>Addr = ''h1:27017'', Kind = Mongos,
                 TopologyVersion = Some \<lparr>ProcessID = [1], Counter = 3\<rparr>\<rparr>,
                example_topology\<lparr>serversClosed := True\<rparr>)
   \<and> Topology_apply example_env
       \<lparr>Addr = ''h1:27017'', Kind = Mongos,
        TopologyVersion = Some \<lparr>ProcessID = [1], Counter = 3\<rparr>\<rparr>
       (example_topology\<lparr>serversClosed := True\<rparr>)
     \<noteq> Returns (\<lparr>Addr = ''h1:27017'', Kind = Mongos,
                 TopologyVersion = Some \<lparr>ProcessID = [1], Counter = 5\<rparr>\<rparr>,
                example_topology\<lparr>serversClosed := True\<rparr>)"
  by (simp add: Topology_apply_def findServer_def example_env_def example_topology_def
        example_description_def)

text \<open>
  C1, amended. When the servers are closed or the state machine does not know the
  address, \<open>apply\<close> returns the incoming description and leaves the topology state as
  it is, whatever the versions are and without consulting the state machine.
  Otherwise: if the stored description's topology version strictly dominates the
  incoming one (both present, same process id, greater counter), \<open>apply\<close> returns the
  stored description and the whole topology state, its snapshot included, is
  unchanged; if it does not (equal or incomparable versions), the incoming
  description is given to the state machine, whose new state and topology are stored
  and published to the subscribers, and \<open>apply\<close> returns the description the state
  machine returns once the publishing loop has returned, which it does whenever the
  subscribers are in order.
\<close>

theorem apply_topology_version:
  "(serversClosed t \<or> \<not> snd (findServer e (fsm t) (Addr sd)) \<longrightarrow>
      Topology_apply e sd t = Returns (sd, t))
 \<and> (\<not> serversClosed t \<and> findServer e (fsm t) (Addr sd) = (ind, True) \<longrightarrow>
      ((\<exists>old inc. TopologyVersion (Servers (fsm_Topology (fsm t)) ! ind) = Some old
             \<and> TopologyVersion sd = Some inc \<and> ProcessID old = ProcessID inc
             \<and> sint (Counter inc) < sint (Counter old)) \<longrightarrow>
         Topology_apply e sd t = Returns (Servers (fsm_Topology (fsm t)) ! ind, t))
    \<and> (\<not> (\<exists>old inc. TopologyVersion (Servers (fsm_Topology (fsm t)) ! ind) = Some old
             \<and> TopologyVersion sd = Some inc \<and> ProcessID old = ProcessID inc
             \<and> sint (Counter inc) < sint (Counter old)) \<longrightarrow>
         (\<exists>t6. fsm t6 = fst (fsm_apply e (fsm t) sd)
             \<and> desc t6 = fst (snd (fsm_apply e (fsm t) sd))
             \<and> Topology_apply e sd t =
                 (case publish_loop (fst (snd (fsm_apply e (fsm t) sd))) (subscribers t) (chans t) of
                    Returns h \<Rightarrow> Returns (snd (snd (fsm_apply e (fsm t) sd)), t6\<lparr>chans := h\<rparr>)
                  | Blocks \<Rightarrow> Blocks
                  | Panics \<Rightarrow> Panics))
       \<and> (subscribers_ok t \<longrightarrow>
            (\<exists>t'. Topology_apply e sd t = Returns (snd (snd (fsm_apply e (fsm t) sd)), t')
               \<and> fsm t' = fst (fsm_apply e (fsm t) sd)
               \<and> desc t' = fst (snd (fsm_apply e (fsm t) sd))))))"
proof (intro conjI impI)
  assume "serversClosed t \<or> \<not> snd (findServer e (fsm t) (Addr sd))"
  then show "Topology_apply e sd t = Returns (sd, t)"
    by (auto simp: Topology_apply_def split_beta)
next
  assume a: "\<not> serversClosed t \<and> findServer e (fsm t) (Addr sd) = (ind, True)"
    and "\<exists>old inc. TopologyVersion (Servers (fsm_Topology (fsm t)) ! ind) = Some old
             \<and> TopologyVersion sd = Some inc \<and> ProcessID old = ProcessID inc
             \<and> sint (Counter inc) < sint (Counter old)"
  then have "CompareToIncoming (TopologyVersion (Servers (fsm_Topology (fsm t)) ! ind))
               (TopologyVersion sd) > 0"
    by (simp add: CompareToIncoming_dominates)
  then show "Topology_apply e sd t = Returns (Servers (fsm_Topology (fsm t)) ! ind, t)"
    using a findServer_found(1) [of e "fsm t" "Addr sd" ind]
    by (simp add: Topology_apply_def)
next
  assume a: "\<not> serversClosed t \<and> findServer e (fsm t) (Addr sd) = (ind, True)"
    and "\<not> (\<exists>old inc. TopologyVersion (Servers (fsm_Topology (fsm t)) ! ind) = Some old
             \<and> TopologyVersion sd = Some inc \<and> ProcessID old = ProcessID inc
             \<and> sint (Counter inc) < sint (Counter old))"
  then have cmp: "\<not> CompareToIncoming (TopologyVersion (Servers (fsm_Topology (fsm t)) ! ind))
               (TopologyVersion sd) > 0"
    by (simp add: CompareToIncoming_dominates)
  obtain f' current d' where fa: "fsm_apply e (fsm t) sd = (f', current, d')"
    by (cases "fsm_apply e (fsm t) sd")
  from a have fs: "findServer e (fsm t) (Addr sd) = (ind, True)" and op: "\<not> serversClosed t"
    by simp_all
  from apply_accepted_run [OF fs op cmp fa] obtain t6 where t6:
    "fsm t6 = f'" "desc t6 = current"
    "Topology_apply e sd t =
       (case publish_loop current (subscribers t) (chans t) of
          Returns h \<Rightarrow> Returns (d', t6\<lparr>chans := h\<rparr>)
        | Blocks \<Rightarrow> Blocks
        | Panics \<Rightarrow> Panics)"
    by blast
  show "\<exists>t6. fsm t6 = fst (fsm_apply e (fsm t) sd)
             \<and> desc t6 = fst (snd (fsm_apply e (fsm t) sd))
             \<and> Topology_apply e sd t =
                 (case publish_loop (fst (snd (fsm_apply e (fsm t) sd))) (subscribers t) (chans t) of
                    Returns h \<Rightarrow> Returns (snd (snd (fsm_apply e (fsm t) sd)), t6\<lparr>chans := h\<rparr>)
                  | Blocks \<Rightarrow> Blocks
                  | Panics \<Rightarrow> Panics)"
    by (rule exI [of _ t6]) (simp add: fa t6 split: outcome.splits)
next
  assume a: "\<not> serversClosed t \<and> findServer e (fsm t) (Addr sd) = (ind, True)"
    and "\<not> (\<exists>old inc. TopologyVersion (Servers (fsm_Topology (fsm t)) ! ind) = Some old
             \<and> TopologyVersion sd = Some inc \<and> ProcessID old = ProcessID inc
             \<and> sint (Counter inc) < sint (Counter old))"
    and ok: "subscribers_ok t"
  then have cmp: "\<not> CompareToIncoming (TopologyVersion (Servers (fsm_Topology (fsm t)) ! ind))
               (TopologyVersion sd) > 0"
    by (simp add: CompareToIncoming_dominates)
  from a have fs: "findServer e (fsm t) (Addr sd) = (ind, True)" and op: "\<not> serversClosed t"
    by simp_all
  from apply_accepted_publishes [OF ok fs op cmp]
  show "\<exists>t'. Topology_apply e sd t = Returns (snd (snd (fsm_apply e (fsm t) sd)), t')
               \<and> fsm t' = fst (fsm_apply e (fsm t) sd)
               \<and> desc t' = fst (snd (fsm_apply e (fsm t) sd))"
    by blast
qed

theorem apply_topology_version_witness:
  "Topology_apply example_env
     \<lparr>Addr = ''h1:27017'', Kind = Mongos,
      TopologyVersion = Some \<lparr>ProcessID = [1], Counter = 3\<rparr>\<rparr> example_topology
   = Returns (\<lparr>Addr = ''h1:27017'', Kind = Mongos,
               TopologyVersion = Some \<lparr>ProcessID = [1], Counter = 5\<rparr>\<rparr>, example_topology)
   \<and> (\<exists>t'. Topology_apply example_env
        \<lparr>Addr = ''h1:27017'', Kind = Mongos,
         TopologyVersion = Some \<lparr>ProcessID = [1], Counter = 5\<rparr>\<rparr> example_topology
      = Returns (\<lparr>Addr = ''h1:27017'', Kind = Mongos,
                  TopologyVersion = Some \<lparr>ProcessID = [1], Counter = 5\<rparr>\<rparr>, t'))
   \<and> (\<exists>t'. Topology_apply example_env
        \<lparr>Addr = ''h1:27017'', Kind = Mongos,
         TopologyVersion = Some \<lparr>ProcessID = [2], Counter = 3\<rparr>\<rparr> example_topology
      = Returns (\<lparr>Addr = ''h1:27017'', Kind = Mongos,
                  TopologyVersion = Some \<lparr>ProcessID = [2], Counter = 3\<rparr>\<rparr>, t'))
   \<and> Topology_apply example_env
        \<lparr>Addr = ''h9:27017'', Kind = Mongos,
         TopologyVersion = Some \<lparr>ProcessID = [1], Counter = 3\<rparr>\<rparr> example_topology
      = Returns (\<lparr>Addr = ''h9:27017'', Kind = Mongos,
                  TopologyVersion = Some \<lparr>ProcessID = [1], Counter = 3\<rparr>\<rparr>, example_topology)
   \<and> Topology_apply example_env
        \<lparr>Addr = ''h1:27017'', Kind = Mongos,
         TopologyVersion = Some \<lparr>ProcessID = [1], Counter = 7\<rparr>\<rparr>
        (example_topology\<lparr>serversClosed := True\<rparr>)
      = Returns (\<lparr>Addr = ''h1:27017'', Kind = Mongos,
                  TopologyVersion = Some \<lparr>ProcessID = [1], Counter = 7\<rparr>\<rparr>,
                 example_topology\<lparr>serversClosed := True\<rparr>)"
proof -
  have op: "\<not> serversClosed example_topology"
    by (simp add: example_topology_def)
  have old: "Servers (fsm_Topology (fsm example_topology)) ! 0 =
     \<lparr>Addr = ''h1:27017'', Kind = Mongos,
      TopologyVersion = Some \<lparr>ProcessID = [1], Counter = 5\<rparr>\<rparr>"
    by (simp add: example_topology_def example_description_def)
  have fa: "\<And>sd. snd (snd (fsm_apply example_env (fsm example_topology) sd)) = sd"
    by (simp add: example_env_def Let_def)
  have unknown: "\<not> snd (findServer example_env (fsm example_topology) ''h9:27017'')"
    by (simp add: findServer_def example_env_def example_topology_def example_description_def)
  show ?thesis
    using
      apply_topology_version [of example_topology example_env
        "\<lparr>Addr = ''h1:27017'', Kind = Mongos,
          TopologyVersion = Some \<lparr>ProcessID = [1], Counter = 3\<rparr>\<rparr>" 0]
      apply_topology_version [of example_topology example_env
        "\<lparr>Addr = ''h1:27017'', Kind = Mongos,
          TopologyVersion = Some \<lparr>ProcessID = [1], Counter = 5\<rparr>\<rparr>" 0]
      apply_topology_version [of example_topology example_env
        "\<lparr>Addr = ''h1:27017'', Kind = Mongos,
          TopologyVersion = Some \<lparr>ProcessID = [2], Counter = 3\<rparr>\<rparr>" 0]
      apply_topology_version [of example_topology example_env
        "\<lparr>Addr = ''h9:27017'', Kind = Mongos,
          TopologyVersion = Some \<lparr>ProcessID = [1], Counter = 3\<rparr>\<rparr>" 0]
      apply_topology_version [of "example_topology\<lparr>serversClosed := True\<rparr>" example_env
        "\<lparr>Addr = ''h1:27017'', Kind = Mongos,
          TopologyVersion = Some \<lparr>ProcessID = [1], Counter = 7\<rparr>\<rparr>" 0]
      op example_findServer example_topology_ok unknown
    by (simp add: old fa) blast
qed

subsection \<open>The cap on SRV hosts\<close>

text \<open>
  C5, as stated, on the example topology with \<open>srvMaxHosts = 1\<close>: two servers are
  monitored, the SRV record lists them and a third host; \<open>processSRVResults\<close> adds
  nothing and removes nothing, so two servers stay monitored, more than
  \<open>srvMaxHosts\<close>.
\<close>

theorem srv_max_hosts_cap_counterexample:
  "processSRVResults example_env [''h1:27017'', ''h2:27017'', ''h3:27017'']
     (example_topology\<lparr>cfg := (cfg example_topology)\<lparr>srvMaxHosts := 1\<rparr>\<rparr>)
   = Returns (True, example_topology\<lparr>cfg := (cfg example_topology)\<lparr>srvMaxHosts := 1\<rparr>\<rparr>)
   \<and> srvMaxHosts (cfg (example_topology\<lparr>cfg := (cfg example_topology)\<lparr>srvMaxHosts := 1\<rparr>\<rparr>)) = 1
   \<and> length (servers (example_topology\<lparr>cfg := (cfg example_topology)\<lparr>srvMaxHosts := 1\<rparr>\<rparr>)) = 2"
  by (simp add: processSRVResults_def example_topology_def example_description_def
        example_env_def diffHostList_def added_order_def Shuffle_def swap_def
        Topology_Equal_def lookup_chan_def chan_send_def chan_drain_def Let_def)

text \<open>
  C5, amended. With a positive \<open>srvMaxHosts\<close> (and subscribers in order, so that
  publishing does not block) \<open>processSRVResults\<close> returns, and: the added hosts are
  tried in an order that is a permutation of the added list, namely its \<open>Shuffle\<close> when
  the servers left after the removals plus the added hosts are more than
  \<open>srvMaxHosts\<close>; when the host list differs from the known servers and the servers
  are open, the monitored servers afterwards are those the adding loop produces from
  that order, and the loop stops as soon as the count has reached \<open>srvMaxHosts\<close>. So
  the number of monitored servers afterwards is at most the larger of \<open>srvMaxHosts\<close>
  and the number before, hence at most \<open>srvMaxHosts\<close> when the number before was. When
  the servers are open and the host list differs from the known servers, it is
  exactly the smaller of \<open>srvMaxHosts\<close> and the number after removals plus the number
  of added hosts, provided that number after removals is within the cap, every
  connection succeeds and the added hosts have distinct, not yet monitored canonical
  addresses. Every address monitored afterwards was monitored before or is the
  canonical form of a host of the resolved list.
\<close>

theorem srv_max_hosts_cap:
  assumes "0 < srvMaxHosts (cfg t)" and "subscribers_ok t"
  shows "\<exists>c t'. processSRVResults e parsedHosts t = Returns (c, t')
       \<and> cfg t' = cfg t
       \<and> int (length (servers t')) \<le> max (srvMaxHosts (cfg t)) (int (length (servers t)))
       \<and> (int (length (servers t)) \<le> srvMaxHosts (cfg t) \<longrightarrow>
            int (length (servers t')) \<le> srvMaxHosts (cfg t'))
       \<and> (\<forall>a \<in> fst ` set (servers t').
            a \<in> fst ` set (servers t) \<or> a \<in> Canonicalize e ` set parsedHosts)
       \<and> mset (added_order e
                 (remove_hosts e (Removed_hosts (diffHostList (fsm_Topology (fsm t)) parsedHosts)) t)
                 (Added_hosts (diffHostList (fsm_Topology (fsm t)) parsedHosts)))
           = mset (Added_hosts (diffHostList (fsm_Topology (fsm t)) parsedHosts))
       \<and> (srvMaxHosts (cfg t)
             < int (length (servers
                 (remove_hosts e (Removed_hosts (diffHostList (fsm_Topology (fsm t)) parsedHosts)) t)))
               + int (length (Added_hosts (diffHostList (fsm_Topology (fsm t)) parsedHosts)))
            \<longrightarrow>
            added_order e
                 (remove_hosts e (Removed_hosts (diffHostList (fsm_Topology (fsm t)) parsedHosts)) t)
                 (Added_hosts (diffHostList (fsm_Topology (fsm t)) parsedHosts))
            = Shuffle (rng e) (Added_hosts (diffHostList (fsm_Topology (fsm t)) parsedHosts)))
       \<and> (\<not> serversClosed t
            \<and> \<not> (Added_hosts (diffHostList (fsm_Topology (fsm t)) parsedHosts) = []
                  \<and> Removed_hosts (diffHostList (fsm_Topology (fsm t)) parsedHosts) = [])
            \<longrightarrow>
            servers t' = servers (add_hosts e
               (added_order e
                 (remove_hosts e (Removed_hosts (diffHostList (fsm_Topology (fsm t)) parsedHosts)) t)
                 (Added_hosts (diffHostList (fsm_Topology (fsm t)) parsedHosts)))
               (remove_hosts e (Removed_hosts (diffHostList (fsm_Topology (fsm t)) parsedHosts)) t)))
       \<and> (\<not> serversClosed t
            \<and> \<not> (Added_hosts (diffHostList (fsm_Topology (fsm t)) parsedHosts) = []
                  \<and> Removed_hosts (diffHostList (fsm_Topology (fsm t)) parsedHosts) = [])
            \<and> (\<forall>a. \<exists>s. ConnectServer e a = Inr s)
            \<and> distinct (map (Canonicalize e)
                  (Added_hosts (diffHostList (fsm_Topology (fsm t)) parsedHosts)))
            \<and> Canonicalize e ` set (Added_hosts (diffHostList (fsm_Topology (fsm t)) parsedHosts))
                \<inter> fst ` set (servers
                    (remove_hosts e (Removed_hosts (diffHostList (fsm_Topology (fsm t)) parsedHosts)) t))
                = {}
            \<and> int (length (servers
                 (remove_hosts e (Removed_hosts (diffHostList (fsm_Topology (fsm t)) parsedHosts)) t)))
                \<le> srvMaxHosts (cfg t)
            \<longrightarrow>
            int (length (servers t'))
              = min (srvMaxHosts (cfg t))
                  (int (length (servers
                     (remove_hosts e (Removed_hosts (diffHostList (fsm_Topology (fsm t)) parsedHosts)) t)))
                   + int (length (Added_hosts (diffHostList (fsm_Topology (fsm t)) parsedHosts)))))"
proof -
  define added where "added = Added_hosts (diffHostList (fsm_Topology (fsm t)) parsedHosts)"
  define removed where "removed = Removed_hosts (diffHostList (fsm_Topology (fsm t)) parsedHosts)"
  define t1 where "t1 = remove_hosts e removed t"
  define t2 where "t2 = add_hosts e (added_order e t1 added) t1"
  have t1: "length (servers t1) \<le> length (servers t)"
    "fst ` set (servers t1) \<subseteq> fst ` set (servers t)" "cfg t1 = cfg t"
    using remove_hosts_servers [of e removed t] by (simp_all add: t1_def remove_hosts_frame)
  have perm: "mset (added_order e t1 added) = mset added"
    by (rule added_order_mset)
  have shuf: "srvMaxHosts (cfg t) < int (length (servers t1)) + int (length added) \<longrightarrow>
              added_order e t1 added = Shuffle (rng e) added"
    using assms(1) by (simp add: added_order_def t1(3))
  have "int (length (servers t2)) \<le> max (srvMaxHosts (cfg t1)) (int (length (servers t1)))"
    unfolding t2_def using assms(1) t1(3) by (intro add_hosts_cap) simp
  then have l2: "int (length (servers t2)) \<le> max (srvMaxHosts (cfg t)) (int (length (servers t)))"
    using t1 by simp
  have "fst ` set (servers t2) \<subseteq> fst ` set (servers t1) \<union> Canonicalize e ` set (added_order e t1 added)"
    unfolding t2_def by (rule add_hosts_dom)
  moreover have "set (added_order e t1 added) \<subseteq> set parsedHosts"
    using diffHostList_Added [of "fsm_Topology (fsm t)" parsedHosts]
    by (simp add: added_order_set added_def)
  ultimately have d2: "fst ` set (servers t2) \<subseteq> fst ` set (servers t) \<union> Canonicalize e ` set parsedHosts"
    using t1(2) by blast
  have exact: "(\<forall>a. \<exists>s. ConnectServer e a = Inr s)
            \<and> distinct (map (Canonicalize e) added)
            \<and> Canonicalize e ` set added \<inter> fst ` set (servers t1) = {}
            \<and> int (length (servers t1)) \<le> srvMaxHosts (cfg t)
            \<longrightarrow> int (length (servers t2))
                  = min (srvMaxHosts (cfg t)) (int (length (servers t1)) + int (length added))"
  proof
    assume a: "(\<forall>a. \<exists>s. ConnectServer e a = Inr s)
            \<and> distinct (map (Canonicalize e) added)
            \<and> Canonicalize e ` set added \<inter> fst ` set (servers t1) = {}
            \<and> int (length (servers t1)) \<le> srvMaxHosts (cfg t)"
    have "int (length (servers (add_hosts e (added_order e t1 added) t1)))
           = min (srvMaxHosts (cfg t1))
               (int (length (servers t1)) + int (length (added_order e t1 added)))"
      using a assms(1)
      by (intro add_hosts_exact) (simp_all add: t1(3) added_order_distinct added_order_set)
    then show "int (length (servers t2))
                  = min (srvMaxHosts (cfg t)) (int (length (servers t1)) + int (length added))"
      by (simp add: t2_def t1(3) added_order_length)
  qed
  consider (same) "serversClosed t \<or> (added = [] \<and> removed = [])"
    | (changed) "\<not> serversClosed t" "\<not> (added = [] \<and> removed = [])"
    by blast
  then have "\<exists>c t'. processSRVResults e parsedHosts t = Returns (c, t')
       \<and> cfg t' = cfg t
       \<and> int (length (servers t')) \<le> max (srvMaxHosts (cfg t)) (int (length (servers t)))
       \<and> (\<forall>a \<in> fst ` set (servers t').
            a \<in> fst ` set (servers t) \<or> a \<in> Canonicalize e ` set parsedHosts)
       \<and> (\<not> serversClosed t \<and> \<not> (added = [] \<and> removed = []) \<longrightarrow> servers t' = servers t2)"
  proof cases
    case same
    then have "\<exists>c. processSRVResults e parsedHosts t = Returns (c, t)"
      by (auto simp: processSRVResults_def added_def removed_def Let_def)
    then show ?thesis using same by auto
  next
    case changed
    from processSRVResults_changed [OF assms(2) changed(1), of parsedHosts e] changed(2)
    obtain t' where t': "processSRVResults e parsedHosts t = Returns (True, t')"
      "servers t' = servers t2" "cfg t' = cfg t"
      unfolding t2_def t1_def added_def removed_def by blast
    have "fst ` set (servers t') \<subseteq> fst ` set (servers t) \<union> Canonicalize e ` set parsedHosts"
      using d2 t'(2) by simp
    then have "\<forall>a \<in> fst ` set (servers t').
            a \<in> fst ` set (servers t) \<or> a \<in> Canonicalize e ` set parsedHosts"
      by blast
    then show ?thesis
      using t' l2 by auto
  qed
  then obtain c t' where r: "processSRVResults e parsedHosts t = Returns (c, t')"
    "cfg t' = cfg t"
    "int (length (servers t')) \<le> max (srvMaxHosts (cfg t)) (int (length (servers t)))"
    "\<forall>a \<in> fst ` set (servers t').
        a \<in> fst ` set (servers t) \<or> a \<in> Canonicalize e ` set parsedHosts"
    "\<not> serversClosed t \<and> \<not> (added = [] \<and> removed = []) \<longrightarrow> servers t' = servers t2"
    by blast
  have cap: "int (length (servers t)) \<le> srvMaxHosts (cfg t) \<longrightarrow>
            int (length (servers t')) \<le> srvMaxHosts (cfg t')"
    using r(2) r(3) by (auto simp: max_def split: if_splits)
  have exact': "\<not> serversClosed t \<and> \<not> (added = [] \<and> removed = [])
            \<and> (\<forall>a. \<exists>s. ConnectServer e a = Inr s)
            \<and> distinct (map (Canonicalize e) added)
            \<and> Canonicalize e ` set added \<inter> fst ` set (servers t1) = {}
            \<and> int (length (servers t1)) \<le> srvMaxHosts (cfg t)
            \<longrightarrow> int (length (servers t'))
                  = min (srvMaxHosts (cfg t)) (int (length (servers t1)) + int (length added))"
    using exact r(5) by simp
  show ?thesis
    apply (rule exI [of _ c], rule exI [of _ t'])
    using r(1) r(2) r(3) cap r(4) perm shuf r(5) exact'
    unfolding t2_def t1_def added_def removed_def
    by (intro conjI) assumption+
qed

theorem srv_max_hosts_cap_witness:
  "\<exists>c t'. processSRVResults example_env
       [''h1:27017'', ''h2:27017'', ''h3:27017'', ''h4:27017'', ''h5:27017''] example_topology
     = Returns (c, t')
   \<and> servers t' = [(''h1:27017'', \<lparr>address = ''h1:27017''\<rparr>),
                    (''h2:27017'', \<lparr>address = ''h2:27017''\<rparr>),
                    (''h4:27017'', \<lparr>address = ''h4:27017''\<rparr>)]
   \<and> int (length (servers t')) = 3
   \<and> int (length (servers t')) \<le> srvMaxHosts (cfg t')"
proof -
  let ?hosts = "[''h1:27017'', ''h2:27017'', ''h3:27017'', ''h4:27017'', ''h5:27017'']"
  have cap: "0 < srvMaxHosts (cfg example_topology)"
    and cap3: "srvMaxHosts (cfg example_topology) = 3"
    and len: "length (servers example_topology) = 2"
    and op: "\<not> serversClosed example_topology"
    by (simp_all add: example_topology_def)
  have diff: "diffHostList (fsm_Topology (fsm example_topology)) ?hosts
     = \<lparr>Added_hosts = [''h3:27017'', ''h4:27017'', ''h5:27017''], Removed_hosts = []\<rparr>"
    by (simp add: diffHostList_def example_topology_def example_description_def)
  have sh: "Shuffle (\<lambda>i. 0) [''h3:27017'', ''h4:27017'', ''h5:27017'']
             = [''h4:27017'', ''h5:27017'', ''h3:27017'']"
    by (simp add: Shuffle_def swap_def numeral_2_eq_2)
  have ord: "added_order example_env example_topology [''h3:27017'', ''h4:27017'', ''h5:27017'']
     = [''h4:27017'', ''h5:27017'', ''h3:27017'']"
    using sh by (simp add: added_order_def example_topology_def example_env_def)
  have add: "servers (add_hosts example_env [''h4:27017'', ''h5:27017'', ''h3:27017''] example_topology)
     = [(''h1:27017'', \<lparr>address = ''h1:27017''\<rparr>), (''h2:27017'', \<lparr>address = ''h2:27017''\<rparr>),
        (''h4:27017'', \<lparr>address = ''h4:27017''\<rparr>)]"
    by (simp add: addServer_def example_topology_def example_env_def Let_def)
  have conn: "\<forall>a. \<exists>s. ConnectServer example_env a = Inr s"
    and canon: "\<And>a. Canonicalize example_env a = a"
    by (simp_all add: example_env_def)
  have known: "fst ` set (servers example_topology) = {''h1:27017'', ''h2:27017''}"
    by (simp add: example_topology_def)
  note inst = srv_max_hosts_cap [OF cap example_topology_ok, of example_env "?hosts"]
  from inst obtain c t' where r:
    "processSRVResults example_env ?hosts example_topology = Returns (c, t')"
    "cfg t' = cfg example_topology"
    "servers t' = servers (add_hosts example_env [''h4:27017'', ''h5:27017'', ''h3:27017'']
                             example_topology)"
    "int (length (servers t')) = min 3 (2 + 3)"
    unfolding diff using op conn
    by (simp add: ord canon known cap3 len del: add_hosts.simps) metis
  have s3: "servers t' = [(''h1:27017'', \<lparr>address = ''h1:27017''\<rparr>),
                    (''h2:27017'', \<lparr>address = ''h2:27017''\<rparr>),
                    (''h4:27017'', \<lparr>address = ''h4:27017''\<rparr>)]"
    using r(3) unfolding add .
  show ?thesis
    using r(1) r(2) by (intro exI [of _ c] exI [of _ t']) (simp add: s3 cap3)
qed

end
